theory Spec2Isabelle
  imports Complex_Main "HOL-Library.Multiset" "HOL-Library.Product_Lexorder"
begin

section \<open>Smart Waste Mataram: telemetry simulation and intelligence pipeline\<close>

text \<open>
  The development embeds the two dashboards of the repository, \<^verbatim>\<open>BigData/app.py\<close> and
  \<^verbatim>\<open>BigData/app2.py\<close>. Floating point numbers are idealised as exact rationals
  (\<^typ>\<open>rat\<close>); no statement below depends on a rounding of the binary representation.
\<close>

subsection \<open>Time\<close>

text \<open>
  A naive \<^verbatim>\<open>datetime\<close> is the number of microseconds since 1970-01-01 00:00:00 (a Thursday,
  \<^verbatim>\<open>weekday() == 3\<close>); \<^verbatim>\<open>timedelta\<close> arithmetic is integer addition.
\<close>

type_synonym datetime = int

definition HOUR :: int where
  "HOUR = 3600000000"

definition DAY :: int where
  "DAY = 24 * HOUR"

definition hour_of :: "datetime \<Rightarrow> int" where
  "hour_of t = (t div HOUR) mod 24"

definition date_of :: "datetime \<Rightarrow> int" where
  "date_of t = t div DAY"

definition weekday_of :: "datetime \<Rightarrow> int" where
  "weekday_of t = (date_of t + 3) mod 7"

subsection \<open>The ambient pseudo-random source\<close>

text \<open>
  Neither program seeds its generator: \<^verbatim>\<open>np.random\<close> and \<^verbatim>\<open>random\<close> are process-wide state.
  The state is made explicit as the sequence of raw draws still to come and the position
  reached in it; every library call consumes one raw draw and maps it into its documented
  range.
\<close>

record rng =
  draws :: "nat \<Rightarrow> int"
  pos :: nat

definition next_raw :: "rng \<Rightarrow> int \<times> rng" where
  "next_raw g = (draws g (pos g), g\<lparr>pos := Suc (pos g)\<rparr>)"

definition unit_interval :: "int \<Rightarrow> rat" where
  \<comment> \<open>a double in \<open>[0, 1)\<close> with 53 random bits\<close>
  "unit_interval r = of_int (r mod 2 ^ 53) / 2 ^ 53"

definition np_randint :: "int \<Rightarrow> int \<Rightarrow> rng \<Rightarrow> int \<times> rng" where
  \<comment> \<open>\<^verbatim>\<open>np.random.randint(low, high)\<close>: an integer in \<open>[low, high)\<close>\<close>
  "np_randint low high g = (let (r, g') = next_raw g in (low + r mod (high - low), g'))"

definition np_uniform :: "rat \<Rightarrow> rat \<Rightarrow> rng \<Rightarrow> rat \<times> rng" where
  \<comment> \<open>\<^verbatim>\<open>np.random.uniform(low, high)\<close>: \<open>low + (high - low) * u\<close> with \<open>u\<close> in \<open>[0, 1)\<close>\<close>
  "np_uniform low high g = (let (r, g') = next_raw g in (low + (high - low) * unit_interval r, g'))"

definition np_choice2 :: "'a \<Rightarrow> 'a \<Rightarrow> rat \<Rightarrow> rng \<Rightarrow> 'a \<times> rng" where
  \<comment> \<open>\<^verbatim>\<open>np.random.choice([a, b], p=[p, 1 - p])\<close>: the first entry whose cumulated
      probability exceeds a uniform sample\<close>
  "np_choice2 a b p g = (let (r, g') = next_raw g in (if unit_interval r < p then a else b, g'))"

definition random_uniform :: "rat \<Rightarrow> rat \<Rightarrow> rng \<Rightarrow> rat \<times> rng" where
  \<comment> \<open>\<^verbatim>\<open>random.uniform(a, b)\<close>: \<open>a + (b - a) * random()\<close>\<close>
  "random_uniform a b g = (let (r, g') = next_raw g in (a + (b - a) * unit_interval r, g'))"

definition random_randint :: "int \<Rightarrow> int \<Rightarrow> rng \<Rightarrow> int \<times> rng" where
  \<comment> \<open>\<^verbatim>\<open>random.randint(a, b)\<close>: an integer in \<open>[a, b]\<close>, both ends included\<close>
  "random_randint a b g = (let (r, g') = next_raw g in (a + r mod (b - a + 1), g'))"

definition random_choice :: "'a list \<Rightarrow> rng \<Rightarrow> 'a \<times> rng" where
  \<comment> \<open>\<^verbatim>\<open>random.choice(seq)\<close> on a non-empty sequence\<close>
  "random_choice seq g = (let (r, g') = next_raw g in (seq ! nat (r mod int (length seq)), g'))"

subsection \<open>Python numerics\<close>

definition py_int :: "rat \<Rightarrow> int" where
  \<comment> \<open>\<^verbatim>\<open>int(x)\<close> truncates towards zero\<close>
  "py_int x = (if 0 \<le> x then \<lfloor>x\<rfloor> else \<lceil>x\<rceil>)"

definition round_half_even :: "rat \<Rightarrow> int" where
  "round_half_even x =
     (let f = \<lfloor>x\<rfloor>; d = x - of_int f
      in if d < 1 / 2 then f else if 1 / 2 < d then f + 1 else if even f then f else f + 1)"

definition round2 :: "rat \<Rightarrow> rat" where
  \<comment> \<open>\<^verbatim>\<open>round(x, 2)\<close>\<close>
  "round2 x = of_int (round_half_even (x * 100)) / 100"

subsection \<open>Data model\<close>

datatype py_error = KeyError | IndexError | ValueError

record location =
  loc_id :: string
  loc_nama :: string
  loc_lat :: rat
  loc_lon :: rat
  loc_type :: string
  multiplier :: rat

record tps =
  tps_id :: string
  tps_nama :: string
  tps_lat :: rat
  tps_lon :: rat
  base_load :: int

text \<open>
  One row of the sensor table. The rows of \<^verbatim>\<open>app.py\<close> carry the column \<^verbatim>\<open>type\<close> in addition
  to the columns of \<^verbatim>\<open>app2.py\<close>.
\<close>

record reading =
  timestamp :: datetime
  id_tps :: string
  nama_lokasi :: string
  latitude :: rat
  longitude :: rat
  level_kepenuhan :: int
  berat_kg :: rat
  status_tutup :: string
  status_bau :: string

record typed_reading = reading +
  type_col :: string

definition mk_location :: "string \<Rightarrow> string \<Rightarrow> rat \<Rightarrow> rat \<Rightarrow> string \<Rightarrow> rat \<Rightarrow> location" where
  "mk_location i n la lo ty m =
     \<lparr>loc_id = i, loc_nama = n, loc_lat = la, loc_lon = lo, loc_type = ty, multiplier = m\<rparr>"

definition LOCATIONS :: "location list" where
  "LOCATIONS =
    [mk_location ''TPS-01'' ''Ampenan Selatan'' (-85724 / 10000) (1160710 / 10000) ''Residential'' (8 / 10),
     mk_location ''TPS-02'' ''Taman Sari'' (-85680 / 10000) (1160850 / 10000) ''Residential'' (9 / 10),
     mk_location ''TPS-03'' ''Pejeruk'' (-85750 / 10000) (1160800 / 10000) ''Residential'' 1,
     mk_location ''TPS-04'' ''Kebun Sari'' (-85800 / 10000) (1160880 / 10000) ''Business'' (12 / 10),
     mk_location ''TPS-05'' ''Pagutan'' (-86000 / 10000) (1161050 / 10000) ''Residential'' (11 / 10),
     mk_location ''TPS-06'' ''Pagesangan'' (-86100 / 10000) (1161100 / 10000) ''Business'' (13 / 10),
     mk_location ''TPS-07'' ''Mataram Timur'' (-85830 / 10000) (1161200 / 10000) ''Residential'' 1,
     mk_location ''TPS-08'' ''Selagalas'' (-85750 / 10000) (1161400 / 10000) ''Residential'' (9 / 10),
     mk_location ''TPS-09'' ''Cakranegara'' (-85900 / 10000) (1161300 / 10000) ''Market'' (18 / 10),
     mk_location ''TPS-10'' ''Bertais'' (-85950 / 10000) (1161500 / 10000) ''Market'' (19 / 10),
     mk_location ''TPS-11'' ''Sayang-Sayang'' (-85600 / 10000) (1161300 / 10000) ''Residential'' (8 / 10),
     mk_location ''TPS-12'' ''Rembiga'' (-85550 / 10000) (1161100 / 10000) ''Residential'' (9 / 10),
     mk_location ''TPS-13'' ''Dasan Agung'' (-85850 / 10000) (1161000 / 10000) ''Density'' (14 / 10),
     mk_location ''TPS-14'' ''Gomong'' (-85900 / 10000) (1160950 / 10000) ''Education'' (12 / 10),
     mk_location ''TPS-15'' ''Kekalik'' (-85980 / 10000) (1160900 / 10000) ''Education'' (13 / 10)]"

definition TPA_LOCATION :: "rat \<times> rat" where
  \<comment> \<open>\<open>(lon, lat)\<close> of TPA Kebon Kongok\<close>
  "TPA_LOCATION = (1161300 / 10000, -86400 / 10000)"

subsection \<open>The generator of \<^verbatim>\<open>app.py\<close>\<close>

definition time_factor :: "int \<Rightarrow> int" where
  "time_factor hour =
     (if 6 \<le> hour \<and> hour < 12 then 5
      else if 12 \<le> hour \<and> hour < 17 then 10
      else if 17 \<le> hour \<and> hour \<le> 21 then 25
      else 0)"

definition weekend_factor :: "bool \<Rightarrow> rat" where
  "weekend_factor is_weekend = (if is_weekend then 12 / 10 else 1)"

text \<open>
  The body of the loop over \<^verbatim>\<open>LOCATIONS\<close>, block by block as the source comments divide it;
  each block returns its value and the random source after it.
\<close>

definition daily_accumulation :: "datetime \<Rightarrow> location \<Rightarrow> int \<Rightarrow> rng \<Rightarrow> rat \<times> rng" where
  \<comment> \<open>\<^verbatim>\<open>if hour == 5: base_fill = randint(0, 10) else: base_fill = (hour * 2) * ...\<close>\<close>
  "daily_accumulation current_time loc noise g =
     (let hour = hour_of current_time;
          is_weekend = (5 \<le> weekday_of current_time)
      in if hour = 5 then (let (b, g') = np_randint 0 10 g in (of_int b, g'))
         else (of_int (hour * 2) * multiplier loc * weekend_factor is_weekend
                 + of_int (time_factor hour) + of_int noise, g))"

definition latest_spread :: "datetime \<Rightarrow> datetime \<Rightarrow> location \<Rightarrow> rat \<Rightarrow> rng \<Rightarrow> rat \<times> rng" where
  \<comment> \<open>\<^verbatim>\<open>if current_time == end_date:\<close> the reading of the last hour is redrawn from a band
      chosen by the multiplier\<close>
  "latest_spread current_time end_date loc base_fill g =
     (if current_time = end_date then
        (if 15 / 10 < multiplier loc then (let (b, g') = np_randint 80 100 g in (of_int b, g'))
         else if 11 / 10 < multiplier loc then (let (b, g') = np_randint 50 79 g in (of_int b, g'))
         else (let (b, g') = np_randint 10 49 g in (of_int b, g')))
      else (base_fill, g))"

definition lid_status :: "int \<Rightarrow> rng \<Rightarrow> string \<times> rng" where
  \<comment> \<open>\<^verbatim>\<open>"Buka" if level_kepenuhan > 85 else np.random.choice(["Tutup", "Buka"], p=[0.9, 0.1])\<close>\<close>
  "lid_status level g =
     (if 85 < level then (''Buka'', g) else np_choice2 ''Tutup'' ''Buka'' (9 / 10) g)"

definition odor_status :: "string \<Rightarrow> int \<Rightarrow> string" where
  "odor_status tutup level = (if tutup = ''Buka'' \<and> 70 < level then ''Menyengat'' else ''Normal'')"

definition sensor_row :: "datetime \<Rightarrow> datetime \<Rightarrow> location \<Rightarrow> rng \<Rightarrow> typed_reading \<times> rng" where
  "sensor_row current_time end_date loc g0 =
     (let (noise, g1) = np_randint (- 5) 10 g0;
          (base_fill, g2) = daily_accumulation current_time loc noise g1;
          (base_fill, g3) = latest_spread current_time end_date loc base_fill g2;
          level = max 0 (min (py_int base_fill) 100);
          (u, g4) = np_uniform (9 / 10) (12 / 10) g3;
          berat = (of_int level * (25 / 10)) * u;
          (tutup, g5) = lid_status level g4;
          bau = odor_status tutup level
      in (\<lparr>timestamp = current_time, id_tps = loc_id loc, nama_lokasi = loc_nama loc,
            latitude = loc_lat loc, longitude = loc_lon loc, level_kepenuhan = level,
            berat_kg = round2 berat, status_tutup = tutup, status_bau = bau,
            type_col = loc_type loc\<rparr>, g5))"

fun hour_rows :: "datetime \<Rightarrow> datetime \<Rightarrow> location list \<Rightarrow> rng \<Rightarrow> typed_reading list \<times> rng" where
  "hour_rows current_time end_date [] g = ([], g)"
| "hour_rows current_time end_date (loc # locs) g =
     (let (r, g1) = sensor_row current_time end_date loc g;
          (rs, g2) = hour_rows current_time end_date locs g1
      in (r # rs, g2))"

function while_hours :: "location list \<Rightarrow> datetime \<Rightarrow> datetime \<Rightarrow> rng \<Rightarrow> typed_reading list \<times> rng" where
  "while_hours locs current_time end_date g =
     (if current_time \<le> end_date then
        (let (rows, g1) = hour_rows current_time end_date locs g;
             (rest, g2) = while_hours locs (current_time + HOUR) end_date g1
         in (rows @ rest, g2))
      else ([], g))"
  by pat_completeness auto
termination
  by (relation "measure (\<lambda>(locs, current_time, end_date, g). nat (end_date - current_time + 1))")
     (auto simp: HOUR_def)

declare while_hours.simps [simp del]

definition generate_data :: "location list \<Rightarrow> datetime \<Rightarrow> rng \<Rightarrow> typed_reading list \<times> rng" where
  \<comment> \<open>the station table and \<^verbatim>\<open>datetime.now()\<close> are read from the environment\<close>
  "generate_data locs now g =
     (let end_date = now; start_date = end_date - 7 * DAY
      in while_hours locs start_date end_date g)"

subsection \<open>The generator of \<^verbatim>\<open>app2.py\<close>\<close>

definition mk_tps :: "string \<Rightarrow> string \<Rightarrow> rat \<Rightarrow> rat \<Rightarrow> int \<Rightarrow> tps" where
  "mk_tps i n la lo b = \<lparr>tps_id = i, tps_nama = n, tps_lat = la, tps_lon = lo, base_load = b\<rparr>"

definition tps_locations :: "tps list" where
  "tps_locations =
    [mk_tps ''TPS-01'' ''Kec. Ampenan - Pasar'' (-8575 / 1000) (116080 / 1000) 80,
     mk_tps ''TPS-02'' ''Kec. Ampenan - Pemukiman'' (-8578 / 1000) (116085 / 1000) 40,
     mk_tps ''TPS-03'' ''Kec. Sekarbela - Pesisir'' (-8595 / 1000) (116082 / 1000) 50,
     mk_tps ''TPS-04'' ''Kec. Sekarbela - Kampus'' (-8592 / 1000) (116090 / 1000) 60,
     mk_tps ''TPS-05'' ''Kec. Mataram - Perkantoran'' (-8583 / 1000) (116102 / 1000) 45,
     mk_tps ''TPS-06'' ''Kec. Mataram - Sekolah'' (-8585 / 1000) (116105 / 1000) 55,
     mk_tps ''TPS-07'' ''Kec. Mataram - Taman Udayana'' (-8570 / 1000) (116100 / 1000) 70,
     mk_tps ''TPS-08'' ''Kec. Selaparang - Rembiga'' (-8565 / 1000) (116110 / 1000) 50,
     mk_tps ''TPS-09'' ''Kec. Selaparang - Bandara Lama'' (-8562 / 1000) (116105 / 1000) 30,
     mk_tps ''TPS-10'' ''Kec. Cakranegara - Bisnis A'' (-8590 / 1000) (116120 / 1000) 85,
     mk_tps ''TPS-11'' ''Kec. Cakranegara - Mall'' (-8592 / 1000) (116125 / 1000) 90,
     mk_tps ''TPS-12'' ''Kec. Cakranegara - Pasar Induk'' (-8588 / 1000) (116130 / 1000) 95,
     mk_tps ''TPS-13'' ''Kec. Cakranegara - Hotel'' (-8595 / 1000) (116122 / 1000) 65,
     mk_tps ''TPS-14'' ''Kec. Sandubaya - Terminal'' (-8600 / 1000) (116135 / 1000) 75,
     mk_tps ''TPS-15'' ''Kec. Sandubaya - Bertais'' (-8598 / 1000) (116140 / 1000) 80,
     mk_tps ''TPS-16'' ''Kel. Pagutan - Perumahan'' (-8605 / 1000) (116100 / 1000) 55,
     mk_tps ''TPS-17'' ''Kel. Pagutan - Pasar'' (-8608 / 1000) (116102 / 1000) 70,
     mk_tps ''TPS-18'' ''Dasam Agung - Padat Penduduk'' (-8580 / 1000) (116110 / 1000) 85,
     mk_tps ''TPS-19'' ''Gomong - Mahasiswa'' (-8582 / 1000) (116095 / 1000) 60,
     mk_tps ''TPS-20'' ''Sayang-Sayang - Kuliner'' (-8560 / 1000) (116120 / 1000) 75]"

definition time_factor2 :: "int \<Rightarrow> rat" where
  "time_factor2 hour_of_day =
     (if 0 \<le> hour_of_day \<and> hour_of_day < 6 then 3 / 10
      else if 17 \<le> hour_of_day \<and> hour_of_day \<le> 20 then 15 / 10
      else 8 / 10)"

definition sensor_level :: "datetime \<Rightarrow> tps \<Rightarrow> rng \<Rightarrow> int \<times> rng" where
  \<comment> \<open>base load, time factor and noise; redrawn at five o'clock; capped to \<open>0..100\<close>\<close>
  "sensor_level current_time t g0 =
     (let hour_of_day = hour_of current_time;
          (noise, g1) = random_uniform (- 10) 20 g0;
          level = py_int (of_int (base_load t) * time_factor2 hour_of_day + noise);
          (level, g2) = (if hour_of_day = 5 then random_randint 0 10 g1 else (level, g1))
      in (max 0 (min 100 level), g2))"

definition lid_status2 :: "int \<Rightarrow> rng \<Rightarrow> string \<times> rng" where
  \<comment> \<open>\<^verbatim>\<open>"Buka" if level > 85 else random.choice(["Tutup", "Tutup", "Tutup", "Buka"])\<close>\<close>
  "lid_status2 level g =
     (if 85 < level then (''Buka'', g)
      else random_choice [''Tutup'', ''Tutup'', ''Tutup'', ''Buka''] g)"

definition tps_row :: "datetime \<Rightarrow> tps \<Rightarrow> rng \<Rightarrow> reading \<times> rng" where
  "tps_row current_time t g0 =
     (let (level, g2) = sensor_level current_time t g0;
          (jitter, g3) = random_uniform (- 5) 5 g2;
          berat = of_int (level * 5) + jitter;
          berat = max 0 (round2 berat);
          (tutup, g4) = lid_status2 level g3;
          bau = odor_status tutup level
      in (\<lparr>timestamp = current_time, id_tps = tps_id t, nama_lokasi = tps_nama t,
            latitude = tps_lat t, longitude = tps_lon t, level_kepenuhan = level,
            berat_kg = berat, status_tutup = tutup, status_bau = bau\<rparr>, g4))"

fun tps_rows :: "datetime \<Rightarrow> tps list \<Rightarrow> rng \<Rightarrow> reading list \<times> rng" where
  "tps_rows current_time [] g = ([], g)"
| "tps_rows current_time (t # ts) g =
     (let (r, g1) = tps_row current_time t g;
          (rs, g2) = tps_rows current_time ts g1
      in (r # rs, g2))"

function while_hours2 :: "tps list \<Rightarrow> datetime \<Rightarrow> datetime \<Rightarrow> rng \<Rightarrow> reading list \<times> rng" where
  "while_hours2 ts current_time end_date g =
     (if current_time \<le> end_date then
        (let (rows, g1) = tps_rows current_time ts g;
             (rest, g2) = while_hours2 ts (current_time + HOUR) end_date g1
         in (rows @ rest, g2))
      else ([], g))"
  by pat_completeness auto
termination
  by (relation "measure (\<lambda>(ts, current_time, end_date, g). nat (end_date - current_time + 1))")
     (auto simp: HOUR_def)

declare while_hours2.simps [simp del]

definition WasteDataGenerator_generate_data :: "tps list \<Rightarrow> int \<Rightarrow> datetime \<Rightarrow> rng \<Rightarrow> reading list \<times> rng" where
  \<comment> \<open>\<^verbatim>\<open>self.tps_locations\<close>, \<^verbatim>\<open>days\<close>, and \<^verbatim>\<open>datetime.now()\<close> read from the environment\<close>
  "WasteDataGenerator_generate_data ts days now g =
     (let end_date = now; start_date = end_date - days * DAY
      in while_hours2 ts start_date end_date g)"

subsection \<open>Table operations\<close>

text \<open>
  \<^verbatim>\<open>sort_values\<close> on one key sorts with the library's default \<^verbatim>\<open>kind='quicksort'\<close>, which
  is not stable: the order among rows with equal keys is whatever that sort leaves. It
  is a parameter \<open>tie\<close>, a rank the library gives to each position of the key column;
  every order among equal keys is the result of some \<open>tie\<close>.
\<close>

definition sort_values ::
  "('k::linorder list \<Rightarrow> nat \<Rightarrow> nat) \<Rightarrow> ('a \<Rightarrow> 'k) \<Rightarrow> bool \<Rightarrow> 'a list \<Rightarrow> 'a list" where
  "sort_values tie key ascending df =
     (let column = map key df;
          ranked = sort_key (\<lambda>(i, row). (key row, tie column i)) (enumerate 0 df)
      in map snd (if ascending then ranked else rev ranked))"

text \<open>
  \<^verbatim>\<open>sort_values\<close> on several keys, all descending, sorts with a stable lexicographic sort
  of the reversed key codes: rows equal in every key keep their input order.
\<close>

definition sort_values_descending :: "('a \<Rightarrow> 'k::linorder) \<Rightarrow> 'a list \<Rightarrow> 'a list" where
  "sort_values_descending keys df = rev (sort_key keys (rev df))"

definition series_mean :: "int list \<Rightarrow> rat" where
  "series_mean vs = of_int (sum_list vs) / of_nat (length vs)"

definition group_values :: "'k \<Rightarrow> 'k list \<Rightarrow> 'v list \<Rightarrow> 'v list" where
  "group_values k keys vals = map snd (filter (\<lambda>kv. fst kv = k) (zip keys vals))"

definition groupby_mean :: "nat list \<Rightarrow> int list \<Rightarrow> (nat \<times> rat) list" where
  \<comment> \<open>\<^verbatim>\<open>groupby(keys)[vals].mean()\<close>: one entry per key, keys ascending\<close>
  "groupby_mean keys vals =
     map (\<lambda>k. (k, series_mean (group_values k keys vals))) (sort (remdups keys))"

definition groupby_sum :: "int list \<Rightarrow> rat list \<Rightarrow> (int \<times> rat) list" where
  \<comment> \<open>\<^verbatim>\<open>groupby(keys)[vals].sum()\<close>\<close>
  "groupby_sum keys vals =
     map (\<lambda>k. (k, sum_list (group_values k keys vals))) (sort (remdups keys))"

subsection \<open>Snapshot\<close>

definition df_latest :: "'a reading_scheme list \<Rightarrow> py_error + 'a reading_scheme list" where
  \<comment> \<open>an empty table has no column \<^verbatim>\<open>timestamp\<close>\<close>
  "df_latest df =
     (if df = [] then Inl KeyError
      else (let latest_timestamp = Max (set (map timestamp df))
            in Inr (filter (\<lambda>r. timestamp r = latest_timestamp) df)))"

subsection \<open>Priority by clustering\<close>

datatype priority_label = High_Priority | Medium_Priority | Low_Priority | Unknown

text \<open>
  \<^verbatim>\<open>KMeans(n_clusters=3, random_state=42, n_init=10).fit_predict\<close> belongs to scikit-learn;
  it is a parameter \<open>kmeans\<close> that maps the feature rows to one cluster id per row
  (in \<^verbatim>\<open>app2.py\<close>: after \<^verbatim>\<open>StandardScaler\<close>).
\<close>

definition priority_status ::
  "(rat list \<Rightarrow> nat \<Rightarrow> nat) \<Rightarrow> ((int \<times> rat) list \<Rightarrow> nat list) \<Rightarrow> 'a reading_scheme list
     \<Rightarrow> py_error + priority_label option list" where
  \<comment> \<open>\<^verbatim>\<open>app.py\<close>, part B of the processing layer; \<open>None\<close> is the \<^verbatim>\<open>NaN\<close> of an unmapped id\<close>
  "priority_status tie kmeans df =
     (if 3 < length df then
        (let X = map (\<lambda>r. (level_kepenuhan r, berat_kg r)) df;
             cluster = kmeans X
         in if length cluster \<noteq> length df then Inl ValueError
            else
              (let cluster_avg =
                     map fst (sort_values tie snd False (groupby_mean cluster (map level_kepenuhan df)))
               in if length cluster_avg < 3 then Inl IndexError
                  else
                    (let priority_map =
                           [cluster_avg ! 0 \<mapsto> High_Priority,
                            cluster_avg ! 1 \<mapsto> Medium_Priority,
                            cluster_avg ! 2 \<mapsto> Low_Priority]
                     in Inr (map priority_map cluster))))
      else Inr (replicate (length df) (Some Unknown)))"





subsection \<open>Route\<close>

definition pickup_list ::
  "(int list \<Rightarrow> nat \<Rightarrow> nat) \<Rightarrow> 'a reading_scheme list \<Rightarrow> 'a reading_scheme list" where
  \<comment> \<open>\<^verbatim>\<open>app.py\<close>: \<^verbatim>\<open>df_latest[level > 75].sort_values(by='level_kepenuhan', ascending=False)\<close>\<close>
  "pickup_list tie df =
     sort_values tie level_kepenuhan False (filter (\<lambda>r. 75 < level_kepenuhan r) df)"

definition route_coords ::
  "(int list \<Rightarrow> nat \<Rightarrow> nat) \<Rightarrow> 'a reading_scheme list \<Rightarrow> (rat \<times> rat) list option" where
  \<comment> \<open>\<^verbatim>\<open>app.py\<close>: built only when the pickup list is not empty; \<open>None\<close> is the standby message\<close>
  "route_coords tie df =
     (let rows = pickup_list tie df
      in if rows = [] then None
         else Some (map (\<lambda>row. (longitude row, latitude row)) rows @ [TPA_LOCATION]))"

definition optimize_route :: "'a reading_scheme list \<Rightarrow> 'a reading_scheme list" where
  \<comment> \<open>\<^verbatim>\<open>SmartAnalytics.optimize_route\<close>: level descending, then weight descending\<close>
  "optimize_route current_data =
     (let critical_tps = filter (\<lambda>r. 75 < level_kepenuhan r) current_data
      in sort_values_descending (\<lambda>r. (level_kepenuhan r, berat_kg r)) critical_tps)"

definition tpa_coords :: "rat \<times> rat" where
  "tpa_coords = (11615 / 100, - 865 / 100)"

definition routing_coords :: "'a reading_scheme list \<Rightarrow> (rat \<times> rat) list option" where
  \<comment> \<open>\<^verbatim>\<open>render_routing_page\<close>: the path drawn on the map, built only for a non-empty plan\<close>
  "routing_coords df =
     (let route_plan = optimize_route df
      in if route_plan = [] then None
         else Some (map (\<lambda>row. (longitude row, latitude row)) route_plan @ [tpa_coords]))"

subsection \<open>Trend\<close>

datatype fit_error = Empty_Input | Rank_Deficient

definition least_squares_line :: "rat list \<Rightarrow> rat list \<Rightarrow> fit_error + rat \<times> rat" where
  \<comment> \<open>The library routines \<^verbatim>\<open>np.polyfit(x, y, 1)\<close> and \<^verbatim>\<open>LinearRegression().fit\<close>, by their
      contract: slope and intercept of the line that minimises the squared residuals, in
      exact arithmetic. What the libraries return when all abscissae coincide is not
      modelled.\<close>
  "least_squares_line x y =
     (let n = of_nat (length x);
          sx = sum_list x;
          sy = sum_list y;
          sxx = sum_list (map (\<lambda>a. a * a) x);
          sxy = sum_list (map (\<lambda>(a, b). a * b) (zip x y));
          d = n * sxx - sx * sx
      in if x = [] \<or> length x \<noteq> length y then Inl Empty_Input
         else if d = 0 then Inl Rank_Deficient
         else (let slope = (n * sxy - sx * sy) / d in Inr (slope, (sy - slope * sx) / n)))"

record forecast =
  daily :: "(int \<times> rat) list"
  slope :: rat
  intercept :: rat
  prediction :: rat
  delta :: rat

definition daily_totals :: "'a reading_scheme list \<Rightarrow> (int \<times> rat) list" where
  \<comment> \<open>\<^verbatim>\<open>df.groupby(df['timestamp'].dt.date)['berat_kg'].sum().reset_index()\<close>\<close>
  "daily_totals df = groupby_sum (map (\<lambda>r. date_of (timestamp r)) df) (map berat_kg df)"

definition predict_waste_generation :: "'a reading_scheme list \<Rightarrow> (py_error + fit_error) + forecast" where
  \<comment> \<open>the regression of both programs (\<^verbatim>\<open>app.py\<close>, tab 3; \<^verbatim>\<open>app2.py\<close>,
      \<^verbatim>\<open>SmartAnalytics.predict_waste_generation\<close> and the metric that shows its difference to
      the last day)\<close>
  "predict_waste_generation df_history =
     (if df_history = [] then Inl (Inl KeyError)
      else
        (let df_daily = daily_totals df_history;
             x = map rat_of_nat [0..<length df_daily];
             y = map snd df_daily
         in case least_squares_line x y of
              Inl e \<Rightarrow> Inl (Inr e)
            | Inr (m, c) \<Rightarrow>
                (let next_day_index = rat_of_nat (length df_daily);
                     prediction_val = m * next_day_index + c
                 in Inr \<lparr>daily = df_daily, slope = m, intercept = c,
                          prediction = prediction_val, delta = prediction_val - last y\<rparr>)))"

subsection \<open>Concrete inputs used in the examples\<close>

definition demo_rng :: rng where
  "demo_rng = \<lparr>draws = (\<lambda>i. 7 * int i + 3), pos = 0\<rparr>"

definition bertais :: location where
  "bertais = mk_location ''TPS-10'' ''Bertais'' (-85950 / 10000) (1161500 / 10000) ''Market'' (19 / 10)"

definition pasar_induk :: tps where
  "pasar_induk = mk_tps ''TPS-12'' ''Kec. Cakranegara - Pasar Induk'' (-8588 / 1000) (116130 / 1000) 95"

definition evening :: datetime where
  \<comment> \<open>1970-01-08 18:00, a Thursday\<close>
  "evening = 7 * DAY + 18 * HOUR"

definition dawn :: datetime where
  \<comment> \<open>1970-01-08 05:00, the hour of the collection\<close>
  "dawn = 7 * DAY + 5 * HOUR"

definition demo_row :: "string \<Rightarrow> int \<Rightarrow> rat \<Rightarrow> reading" where
  "demo_row i l w =
     \<lparr>timestamp = evening, id_tps = i, nama_lokasi = i, latitude = 1, longitude = 2,
      level_kepenuhan = l, berat_kg = w, status_tutup = ''Tutup'', status_bau = ''Normal''\<rparr>"

definition demo_snapshot :: "reading list" where
  "demo_snapshot =
     [demo_row ''TPS-A'' 90 200, demo_row ''TPS-B'' 76 10,
      demo_row ''TPS-C'' 90 250, demo_row ''TPS-D'' 40 3]"

definition calm_snapshot :: "reading list" where
  "calm_snapshot = [demo_row ''TPS-D'' 40 3, demo_row ''TPS-E'' 75 180]"

definition three_days :: "reading list" where
  "three_days =
     [(demo_row ''TPS-A'' 80 400)\<lparr>timestamp := DAY + 9 * HOUR\<rparr>,
      (demo_row ''TPS-B'' 90 600)\<lparr>timestamp := DAY + 9 * HOUR\<rparr>,
      (demo_row ''TPS-A'' 85 450)\<lparr>timestamp := 2 * DAY + 9 * HOUR\<rparr>,
      (demo_row ''TPS-B'' 95 650)\<lparr>timestamp := 2 * DAY + 9 * HOUR\<rparr>,
      (demo_row ''TPS-A'' 90 500)\<lparr>timestamp := 3 * DAY + 9 * HOUR\<rparr>,
      (demo_row ''TPS-B'' 99 700)\<lparr>timestamp := 3 * DAY + 9 * HOUR\<rparr>]"

definition keep_input_order :: "'k list \<Rightarrow> nat \<Rightarrow> nat" where
  \<comment> \<open>the ranks that leave equal keys in input order under a descending sort, as an
      insertion sort does\<close>
  "keep_input_order column i = length column - i"

definition reverse_input_order :: "'k list \<Rightarrow> nat \<Rightarrow> nat" where
  "reverse_input_order column i = i"

definition swapped_snapshot :: "reading list" where
  \<comment> \<open>\<open>demo_snapshot\<close> with the two stations at level 90 exchanged\<close>
  "swapped_snapshot =
     [demo_row ''TPS-C'' 90 250, demo_row ''TPS-B'' 76 10,
      demo_row ''TPS-A'' 90 200, demo_row ''TPS-D'' 40 3]"



definition tied_snapshot :: "reading list" where
  \<comment> \<open>two stations at the same level with different weights\<close>
  "tied_snapshot =
     [demo_row ''TPS-A'' 50 100, demo_row ''TPS-B'' 50 150,
      demo_row ''TPS-C'' 90 225, demo_row ''TPS-D'' 95 230]"

definition swap_first_two :: "nat \<Rightarrow> nat" where
  "swap_first_two c = (if c = 0 then 1 else if c = 1 then 0 else c)"

section \<open>Properties of the generators\<close>

subsection \<open>Numeric helpers\<close>

lemma round_half_even_nonneg: "0 \<le> x \<Longrightarrow> 0 \<le> round_half_even x"
  by (auto simp: round_half_even_def Let_def)

lemma round2_nonneg: "0 \<le> x \<Longrightarrow> 0 \<le> round2 x"
  by (simp add: round2_def round_half_even_nonneg)

lemma unit_interval_bounds: "0 \<le> unit_interval r \<and> unit_interval r < 1"
  by (simp add: unit_interval_def)

lemma mod_range:
  fixes r :: int
  assumes "0 < m"
  shows "0 \<le> r mod m \<and> r mod m < m"
  using assms by simp

lemma np_randint_range:
  assumes "low < high"
  shows "low \<le> fst (np_randint low high g) \<and> fst (np_randint low high g) < high"
proof -
  have "0 < high - low"
    using assms by simp
  from mod_range [OF this, of "draws g (pos g)"] show ?thesis
    by (simp add: np_randint_def next_raw_def)
qed

lemma random_randint_range:
  assumes "a \<le> b"
  shows "a \<le> fst (random_randint a b g) \<and> fst (random_randint a b g) \<le> b"
proof -
  have "0 < b - a + 1"
    using assms by simp
  from mod_range [OF this, of "draws g (pos g)"] show ?thesis
    by (simp add: random_randint_def next_raw_def)
qed

lemma np_uniform_nonneg: "0 \<le> low \<Longrightarrow> low \<le> high \<Longrightarrow> 0 \<le> fst (np_uniform low high g)"
  using unit_interval_bounds [of "draws g (pos g)"]
  by (simp add: np_uniform_def next_raw_def)

subsection \<open>Every row of a history satisfies what every single row satisfies\<close>

lemma hour_rows_all:
  assumes "\<And>loc g. P (fst (sensor_row ct ed loc g))"
  shows "\<forall>r \<in> set (fst (hour_rows ct ed locs g)). P r"
proof (induction locs arbitrary: g)
  case Nil
  show ?case by simp
next
  case (Cons loc locs)
  obtain r g1 where a: "sensor_row ct ed loc g = (r, g1)"
    by (cases "sensor_row ct ed loc g")
  obtain rs g2 where b: "hour_rows ct ed locs g1 = (rs, g2)"
    by (cases "hour_rows ct ed locs g1")
  have "P r"
    using assms [of loc g] a by simp
  moreover have "\<forall>x \<in> set rs. P x"
    using Cons.IH [of g1] b by simp
  ultimately show ?case
    using a b by simp
qed

lemma while_hours_all:
  assumes "\<And>ct loc g. P (fst (sensor_row ct ed loc g))"
  shows "\<forall>r \<in> set (fst (while_hours locs ct ed g)). P r"
  using assms
proof (induction locs ct ed g rule: while_hours.induct)
  case (1 locs ct ed g)
  show ?case
  proof (cases "ct \<le> ed")
    case False
    then show ?thesis by (simp add: while_hours.simps)
  next
    case True
    obtain rows g1 where h: "hour_rows ct ed locs g = (rows, g1)"
      by (cases "hour_rows ct ed locs g")
    have a: "\<forall>r \<in> set rows. P r"
      using hour_rows_all [where P = P, OF "1.prems", of ct locs g] h by simp
    have b: "\<forall>r \<in> set (fst (while_hours locs (ct + HOUR) ed g1)). P r"
      using "1.IH" [OF True h [symmetric] refl "1.prems"] by simp
    show ?thesis
      using True h a b
      by (subst while_hours.simps) (auto split: prod.splits)
  qed
qed

lemma tps_rows_all:
  assumes "\<And>t g. P (fst (tps_row ct t g))"
  shows "\<forall>r \<in> set (fst (tps_rows ct ts g)). P r"
proof (induction ts arbitrary: g)
  case Nil
  show ?case by simp
next
  case (Cons t ts)
  obtain r g1 where a: "tps_row ct t g = (r, g1)"
    by (cases "tps_row ct t g")
  obtain rs g2 where b: "tps_rows ct ts g1 = (rs, g2)"
    by (cases "tps_rows ct ts g1")
  have "P r"
    using assms [of t g] a by simp
  moreover have "\<forall>x \<in> set rs. P x"
    using Cons.IH [of g1] b by simp
  ultimately show ?case
    using a b by simp
qed

lemma while_hours2_all:
  assumes "\<And>ct t g. P (fst (tps_row ct t g))"
  shows "\<forall>r \<in> set (fst (while_hours2 ts ct ed g)). P r"
  using assms
proof (induction ts ct ed g rule: while_hours2.induct)
  case (1 ts ct ed g)
  show ?case
  proof (cases "ct \<le> ed")
    case False
    then show ?thesis by (simp add: while_hours2.simps)
  next
    case True
    obtain rows g1 where h: "tps_rows ct ts g = (rows, g1)"
      by (cases "tps_rows ct ts g")
    have a: "\<forall>r \<in> set rows. P r"
      using tps_rows_all [where P = P, OF "1.prems", of ct ts g] h by simp
    have b: "\<forall>r \<in> set (fst (while_hours2 ts (ct + HOUR) ed g1)). P r"
      using "1.IH" [OF True h [symmetric] refl "1.prems"] by simp
    show ?thesis
      using True h a b
      by (subst while_hours2.simps) (auto split: prod.splits)
  qed
qed

text \<open>The rows of the first hour are rows of the history.\<close>

lemma while_hours_first:
  assumes "ct \<le> ed"
  shows "set (fst (hour_rows ct ed locs g)) \<subseteq> set (fst (while_hours locs ct ed g))"
  using assms by (subst while_hours.simps) (auto split: prod.splits)

lemma while_hours2_first:
  assumes "ct \<le> ed"
  shows "set (fst (tps_rows ct ts g)) \<subseteq> set (fst (while_hours2 ts ct ed g))"
  using assms by (subst while_hours2.simps) (auto split: prod.splits)

subsection \<open>Ranges of a single row\<close>

lemma sensor_row_level:
  "0 \<le> level_kepenuhan (fst (sensor_row ct ed loc g)) \<and>
   level_kepenuhan (fst (sensor_row ct ed loc g)) \<le> 100"
  by (simp add: sensor_row_def Let_def case_prod_beta)

lemma sensor_row_berat: "0 \<le> berat_kg (fst (sensor_row ct ed loc g))"
  by (simp add: sensor_row_def Let_def case_prod_beta round2_nonneg np_uniform_nonneg)

lemma sensor_level_range:
  "0 \<le> fst (sensor_level ct t g) \<and> fst (sensor_level ct t g) \<le> 100"
  by (simp add: sensor_level_def Let_def case_prod_beta)

lemma tps_row_level:
  "0 \<le> level_kepenuhan (fst (tps_row ct t g)) \<and> level_kepenuhan (fst (tps_row ct t g)) \<le> 100"
  by (simp add: tps_row_def Let_def case_prod_beta sensor_level_range)

lemma tps_row_berat: "0 \<le> berat_kg (fst (tps_row ct t g))"
  by (simp add: tps_row_def Let_def case_prod_beta)

subsection \<open>Evaluating concrete rows\<close>

lemma floor_rat_numeral: "\<lfloor>numeral a / numeral b :: rat\<rfloor> = numeral a div numeral b"
  using floor_divide_of_int_eq [of "numeral a" "numeral b", where ?'a = rat] by simp

lemma floor_rat_neg_numeral: "\<lfloor>- (numeral a / numeral b) :: rat\<rfloor> = - numeral a div numeral b"
  using floor_divide_of_int_eq [of "- numeral a" "numeral b", where ?'a = rat] by simp

lemma ceiling_rat_numeral: "\<lceil>numeral a / numeral b :: rat\<rceil> = - (- numeral a div numeral b)"
  by (simp add: ceiling_def floor_rat_neg_numeral)

lemma ceiling_rat_neg_numeral: "\<lceil>- (numeral a / numeral b) :: rat\<rceil> = - (numeral a div numeral b)"
  by (simp add: ceiling_def floor_rat_numeral)

lemmas eval_numeric =
  floor_rat_numeral floor_rat_neg_numeral ceiling_rat_numeral ceiling_rat_neg_numeral
  py_int_def round2_def round_half_even_def unit_interval_def Let_def

lemmas eval_time = hour_of_def weekday_of_def date_of_def HOUR_def DAY_def

lemmas eval_random =
  next_raw_def np_randint_def np_uniform_def np_choice2_def
  random_uniform_def random_randint_def random_choice_def

lemmas eval_row =
  daily_accumulation_def latest_spread_def lid_status_def odor_status_def
  time_factor_def weekend_factor_def mk_location_def

lemmas eval_row2 =
  sensor_level_def lid_status2_def odor_status_def time_factor2_def mk_tps_def

lemma generate_data_first:
  "fst (sensor_row (now - 7 * DAY) now loc g) \<in> set (fst (generate_data (loc # locs) now g))"
proof -
  have "now - 7 * DAY \<le> now"
    by (simp add: DAY_def HOUR_def)
  from while_hours_first [OF this, of "loc # locs" g] show ?thesis
    by (auto simp: generate_data_def Let_def split: prod.splits)
qed

lemma WasteDataGenerator_generate_data_first:
  assumes "0 \<le> days"
  shows "fst (tps_row (now - days * DAY) t g)
           \<in> set (fst (WasteDataGenerator_generate_data (t # ts) days now g))"
proof -
  have "now - days * DAY \<le> now"
    using assms by (simp add: DAY_def HOUR_def)
  from while_hours2_first [OF this, of "t # ts" g] show ?thesis
    by (auto simp: WasteDataGenerator_generate_data_def Let_def split: prod.splits)
qed

lemma bertais_first_level:
  "level_kepenuhan (fst (sensor_row (18 * HOUR) evening bertais demo_rng)) = 91"
  apply (simp only: sensor_row_def Let_def case_prod_beta)
  apply (simp add: eval_numeric eval_time eval_random eval_row demo_rng_def bertais_def evening_def)
  done

lemma pasar_induk_first_level:
  "level_kepenuhan (fst (tps_row (18 * HOUR) pasar_induk demo_rng)) = 100"
  apply (simp only: tps_row_def Let_def case_prod_beta)
  apply (simp add: eval_numeric eval_time eval_random eval_row2 demo_rng_def pasar_induk_def)
  done

subsection \<open>Shape of a row\<close>

lemma sensor_row_timestamp [simp]: "timestamp (fst (sensor_row ct ed loc g)) = ct"
  by (simp add: sensor_row_def Let_def case_prod_beta)

lemma sensor_row_id [simp]: "id_tps (fst (sensor_row ct ed loc g)) = loc_id loc"
  by (simp add: sensor_row_def Let_def case_prod_beta)

lemma sensor_row_level_eq:
  "level_kepenuhan (fst (sensor_row ct ed loc g)) =
     max 0 (min (py_int (fst (latest_spread ct ed loc
        (fst (daily_accumulation ct loc (fst (np_randint (- 5) 10 g)) (snd (np_randint (- 5) 10 g))))
        (snd (daily_accumulation ct loc (fst (np_randint (- 5) 10 g)) (snd (np_randint (- 5) 10 g))))))) 100)"
  by (simp add: sensor_row_def Let_def case_prod_beta)

lemma tps_row_timestamp [simp]: "timestamp (fst (tps_row ct t g)) = ct"
  by (simp add: tps_row_def Let_def case_prod_beta)

lemma tps_row_id [simp]: "id_tps (fst (tps_row ct t g)) = tps_id t"
  by (simp add: tps_row_def Let_def case_prod_beta)

lemma tps_row_level_eq: "level_kepenuhan (fst (tps_row ct t g)) = fst (sensor_level ct t g)"
  by (simp add: tps_row_def Let_def case_prod_beta)

lemma py_int_of_int [simp]: "py_int (of_int k) = k"
  by (simp add: py_int_def)

lemma latest_spread_final:
  "\<exists>b. fst (latest_spread ed ed loc bf g) = of_int b \<and>
       (15 / 10 < multiplier loc \<longrightarrow> 80 \<le> b \<and> b < 100) \<and>
       (11 / 10 < multiplier loc \<and> multiplier loc \<le> 15 / 10 \<longrightarrow> 50 \<le> b \<and> b < 79) \<and>
       (multiplier loc \<le> 11 / 10 \<longrightarrow> 10 \<le> b \<and> b < 49)"
proof -
  consider "15 / 10 < multiplier loc"
    | "11 / 10 < multiplier loc" "multiplier loc \<le> 15 / 10"
    | "multiplier loc \<le> 11 / 10"
    by linarith
  then show ?thesis
  proof cases
    case 1
    then show ?thesis
      using np_randint_range [of 80 100 g]
      by (intro exI [of _ "fst (np_randint 80 100 g)"])
         (simp add: latest_spread_def case_prod_beta)
  next
    case 2
    then show ?thesis
      using np_randint_range [of 50 79 g]
      by (intro exI [of _ "fst (np_randint 50 79 g)"])
         (simp add: latest_spread_def case_prod_beta)
  next
    case 3
    then show ?thesis
      using np_randint_range [of 10 49 g]
      by (intro exI [of _ "fst (np_randint 10 49 g)"])
         (simp add: latest_spread_def case_prod_beta)
  qed
qed

lemma latest_spread_earlier:
  "ct \<noteq> ed \<Longrightarrow> latest_spread ct ed loc bf g = (bf, g)"
  by (simp add: latest_spread_def)

lemma daily_accumulation_reset:
  assumes "hour_of ct = 5"
  shows "\<exists>b. fst (daily_accumulation ct loc noise g) = of_int b \<and> 0 \<le> b \<and> b < 10"
  using assms np_randint_range [of 0 10 g]
  by (intro exI [of _ "fst (np_randint 0 10 g)"])
     (simp add: daily_accumulation_def case_prod_beta Let_def)

lemma sensor_row_latest_band:
  "(15 / 10 < multiplier loc \<longrightarrow>
      80 \<le> level_kepenuhan (fst (sensor_row ed ed loc g)) \<and>
      level_kepenuhan (fst (sensor_row ed ed loc g)) < 100) \<and>
   (11 / 10 < multiplier loc \<and> multiplier loc \<le> 15 / 10 \<longrightarrow>
      50 \<le> level_kepenuhan (fst (sensor_row ed ed loc g)) \<and>
      level_kepenuhan (fst (sensor_row ed ed loc g)) < 79) \<and>
   (multiplier loc \<le> 11 / 10 \<longrightarrow>
      10 \<le> level_kepenuhan (fst (sensor_row ed ed loc g)) \<and>
      level_kepenuhan (fst (sensor_row ed ed loc g)) < 49)"
proof -
  let ?n = "np_randint (- 5) 10 g"
  let ?a = "daily_accumulation ed loc (fst ?n) (snd ?n)"
  obtain b where b: "fst (latest_spread ed ed loc (fst ?a) (snd ?a)) = of_int b"
    and hi: "15 / 10 < multiplier loc \<longrightarrow> 80 \<le> b \<and> b < 100"
    and mid: "11 / 10 < multiplier loc \<and> multiplier loc \<le> 15 / 10 \<longrightarrow> 50 \<le> b \<and> b < 79"
    and lo: "multiplier loc \<le> 11 / 10 \<longrightarrow> 10 \<le> b \<and> b < 49"
    using latest_spread_final [of ed loc "fst ?a" "snd ?a"] by blast
  have "level_kepenuhan (fst (sensor_row ed ed loc g)) = max 0 (min b 100)"
    by (simp add: sensor_row_level_eq b)
  with hi mid lo show ?thesis
    by auto
qed

lemma sensor_row_reset:
  assumes "hour_of ct = 5" and "ct \<noteq> ed"
  shows "0 \<le> level_kepenuhan (fst (sensor_row ct ed loc g)) \<and>
         level_kepenuhan (fst (sensor_row ct ed loc g)) < 10"
proof -
  let ?n = "np_randint (- 5) 10 g"
  obtain b where b: "fst (daily_accumulation ct loc (fst ?n) (snd ?n)) = of_int b"
    and r: "0 \<le> b" "b < 10"
    using daily_accumulation_reset [OF assms(1), of loc "fst ?n" "snd ?n"] by blast
  have "level_kepenuhan (fst (sensor_row ct ed loc g)) = max 0 (min b 100)"
    by (simp add: sensor_row_level_eq latest_spread_earlier [OF assms(2)] b)
  with r show ?thesis
    by auto
qed

lemma sensor_level_reset:
  assumes "hour_of ct = 5"
  shows "0 \<le> fst (sensor_level ct t g) \<and> fst (sensor_level ct t g) \<le> 10"
  using assms random_randint_range [of 0 10 "snd (random_uniform (- 10) 20 g)"]
  by (simp add: sensor_level_def Let_def case_prod_beta)

subsection \<open>Shape of a history\<close>

lemma hour_rows_rows:
  "list_all2 (\<lambda>loc r. \<exists>g'. r = fst (sensor_row ct ed loc g')) locs (fst (hour_rows ct ed locs g))"
proof (induction locs arbitrary: g)
  case Nil
  show ?case by simp
next
  case (Cons loc locs)
  obtain r g1 where a: "sensor_row ct ed loc g = (r, g1)"
    by (cases "sensor_row ct ed loc g")
  obtain rs g2 where b: "hour_rows ct ed locs g1 = (rs, g2)"
    by (cases "hour_rows ct ed locs g1")
  have "\<exists>g'. r = fst (sensor_row ct ed loc g')"
    using a by (intro exI [of _ g]) simp
  moreover have "list_all2 (\<lambda>loc r. \<exists>g'. r = fst (sensor_row ct ed loc g')) locs rs"
    using Cons.IH [of g1] b by simp
  ultimately show ?case
    using a b by auto
qed

lemma tps_rows_rows:
  "list_all2 (\<lambda>t r. \<exists>g'. r = fst (tps_row ct t g')) ts (fst (tps_rows ct ts g))"
proof (induction ts arbitrary: g)
  case Nil
  show ?case by simp
next
  case (Cons t ts)
  obtain r g1 where a: "tps_row ct t g = (r, g1)"
    by (cases "tps_row ct t g")
  obtain rs g2 where b: "tps_rows ct ts g1 = (rs, g2)"
    by (cases "tps_rows ct ts g1")
  have "\<exists>g'. r = fst (tps_row ct t g')"
    using a by (intro exI [of _ g]) simp
  moreover have "list_all2 (\<lambda>t r. \<exists>g'. r = fst (tps_row ct t g')) ts rs"
    using Cons.IH [of g1] b by simp
  ultimately show ?case
    using a b by auto
qed

lemma hour_rows_timestamp: "\<forall>r \<in> set (fst (hour_rows ct ed locs g)). timestamp r = ct"
  by (rule hour_rows_all) simp

lemma tps_rows_timestamp: "\<forall>r \<in> set (fst (tps_rows ct ts g)). timestamp r = ct"
  by (rule tps_rows_all) simp

lemma list_all2_map_eq:
  assumes "list_all2 R xs ys" and "\<And>x y. R x y \<Longrightarrow> f y = h x"
  shows "map f ys = map h xs"
  using assms by (induction rule: list_all2_induct) auto

lemma hour_rows_ids: "map id_tps (fst (hour_rows ct ed locs g)) = map loc_id locs"
  by (rule list_all2_map_eq [OF hour_rows_rows]) auto

lemma tps_rows_ids: "map id_tps (fst (tps_rows ct ts g)) = map tps_id ts"
  by (rule list_all2_map_eq [OF tps_rows_rows]) auto

lemma hour_rows_length: "length (fst (hour_rows ct ed locs g)) = length locs"
  using hour_rows_rows [of ct ed locs g] by (simp add: list_all2_lengthD)

lemma tps_rows_length: "length (fst (tps_rows ct ts g)) = length ts"
  using tps_rows_rows [of ct ts g] by (simp add: list_all2_lengthD)

lemma HOUR_pos: "0 < HOUR"
  by (simp add: HOUR_def)

text \<open>
  When the window is a whole number of hours, the history ends with the rows of the hour
  \<open>ed\<close>, and every row before them is older.
\<close>

lemma while_hours_split:
  assumes "ct \<le> ed" and "(ed - ct) mod HOUR = 0"
  shows "\<exists>earlier g'. fst (while_hours locs ct ed g) = earlier @ fst (hour_rows ed ed locs g') \<and>
           (\<forall>r \<in> set earlier. timestamp r < ed)"
  using assms
proof (induction locs ct ed g rule: while_hours.induct)
  case (1 locs ct ed g)
  obtain rows g1 where h: "hour_rows ct ed locs g = (rows, g1)"
    by (cases "hour_rows ct ed locs g")
  have unfold: "fst (while_hours locs ct ed g) = rows @ fst (while_hours locs (ct + HOUR) ed g1)"
    using "1.prems"(1) h by (subst while_hours.simps) (simp split: prod.splits)
  show ?case
  proof (cases "ct = ed")
    case True
    have "fst (while_hours locs (ct + HOUR) ed g1) = []"
      using True HOUR_pos by (subst while_hours.simps) simp
    then have "fst (while_hours locs ct ed g) = [] @ fst (hour_rows ed ed locs g)"
      using unfold h True by simp
    then show ?thesis
      by (intro exI [of _ "[]"] exI [of _ g]) simp
  next
    case False
    have "0 < ed - ct"
      using False "1.prems"(1) by simp
    moreover have "HOUR dvd ed - ct"
      using "1.prems"(2) by (simp add: dvd_eq_mod_eq_0)
    ultimately have "HOUR \<le> ed - ct"
      by (rule zdvd_imp_le [rotated])
    then have le: "ct + HOUR \<le> ed"
      by simp
    have "ed - (ct + HOUR) = ed - ct - HOUR"
      by simp
    then have md: "(ed - (ct + HOUR)) mod HOUR = 0"
      using "1.prems"(2) by (simp only: minus_mod_self2)
    obtain earlier g' where e:
      "fst (while_hours locs (ct + HOUR) ed g1) = earlier @ fst (hour_rows ed ed locs g')"
      "\<forall>r \<in> set earlier. timestamp r < ed"
      using "1.IH" [OF "1.prems"(1) h [symmetric] refl le md] by blast
    have "\<forall>r \<in> set rows. timestamp r < ed"
      using hour_rows_timestamp [of ct ed locs g] h False "1.prems"(1) by simp
    then show ?thesis
      using unfold e
      by (intro exI [of _ "rows @ earlier"] exI [of _ g']) auto
  qed
qed

lemma while_hours2_split:
  assumes "ct \<le> ed" and "(ed - ct) mod HOUR = 0"
  shows "\<exists>earlier g'. fst (while_hours2 ts ct ed g) = earlier @ fst (tps_rows ed ts g') \<and>
           (\<forall>r \<in> set earlier. timestamp r < ed)"
  using assms
proof (induction ts ct ed g rule: while_hours2.induct)
  case (1 ts ct ed g)
  obtain rows g1 where h: "tps_rows ct ts g = (rows, g1)"
    by (cases "tps_rows ct ts g")
  have unfold: "fst (while_hours2 ts ct ed g) = rows @ fst (while_hours2 ts (ct + HOUR) ed g1)"
    using "1.prems"(1) h by (subst while_hours2.simps) (simp split: prod.splits)
  show ?case
  proof (cases "ct = ed")
    case True
    have "fst (while_hours2 ts (ct + HOUR) ed g1) = []"
      using True HOUR_pos by (subst while_hours2.simps) simp
    then have "fst (while_hours2 ts ct ed g) = [] @ fst (tps_rows ed ts g)"
      using unfold h True by simp
    then show ?thesis
      by (intro exI [of _ "[]"] exI [of _ g]) simp
  next
    case False
    have "0 < ed - ct"
      using False "1.prems"(1) by simp
    moreover have "HOUR dvd ed - ct"
      using "1.prems"(2) by (simp add: dvd_eq_mod_eq_0)
    ultimately have "HOUR \<le> ed - ct"
      by (rule zdvd_imp_le [rotated])
    then have le: "ct + HOUR \<le> ed"
      by simp
    have "ed - (ct + HOUR) = ed - ct - HOUR"
      by simp
    then have md: "(ed - (ct + HOUR)) mod HOUR = 0"
      using "1.prems"(2) by (simp only: minus_mod_self2)
    obtain earlier g' where e:
      "fst (while_hours2 ts (ct + HOUR) ed g1) = earlier @ fst (tps_rows ed ts g')"
      "\<forall>r \<in> set earlier. timestamp r < ed"
      using "1.IH" [OF "1.prems"(1) h [symmetric] refl le md] by blast
    have "\<forall>r \<in> set rows. timestamp r < ed"
      using tps_rows_timestamp [of ct ts g] h False "1.prems"(1) by simp
    then show ?thesis
      using unfold e
      by (intro exI [of _ "rows @ earlier"] exI [of _ g']) auto
  qed
qed

lemma while_hours_no_station: "fst (while_hours [] ct ed g) = []"
proof (induction "[] :: location list" ct ed g rule: while_hours.induct)
  case (1 ct ed g)
  then show ?case
    by (subst while_hours.simps) (simp split: prod.splits)
qed

lemma while_hours2_no_station: "fst (while_hours2 [] ct ed g) = []"
proof (induction "[] :: tps list" ct ed g rule: while_hours2.induct)
  case (1 ct ed g)
  then show ?case
    by (subst while_hours2.simps) (simp split: prod.splits)
qed

lemma while_hours2_no_hour: "ed < ct \<Longrightarrow> fst (while_hours2 ts ct ed g) = []"
  by (subst while_hours2.simps) simp

lemma df_latest_split:
  assumes "rows \<noteq> []"
    and "\<forall>r \<in> set rows. timestamp r = ed"
    and "\<forall>r \<in> set earlier. timestamp r < ed"
  shows "df_latest (earlier @ rows) = Inr rows"
proof -
  have "ed \<in> set (map timestamp (earlier @ rows))"
    using assms(1,2) by (cases rows) auto
  moreover have "\<forall>t \<in> set (map timestamp (earlier @ rows)). t \<le> ed"
    using assms(2,3) by auto
  ultimately have mx: "Max (set (map timestamp (earlier @ rows))) = ed"
    by (intro Max_eqI) auto
  have "filter (\<lambda>r. timestamp r = ed) earlier = []"
    using assms(3) by (auto simp: filter_empty_conv)
  moreover have "filter (\<lambda>r. timestamp r = ed) rows = rows"
    using assms(2) by (auto simp: filter_id_conv)
  ultimately show ?thesis
    using assms(1) mx by (simp add: df_latest_def Let_def)
qed

lemma week_of_hours: "(now - (now - days * DAY)) mod HOUR = 0"
  by (simp add: DAY_def)

lemma generate_data_latest:
  assumes "fst (generate_data locs now g) \<noteq> []"
  shows "\<exists>g'. df_latest (fst (generate_data locs now g)) = Inr (fst (hour_rows now now locs g'))"
proof -
  have ne: "locs \<noteq> []"
    using assms while_hours_no_station by (auto simp: generate_data_def Let_def)
  have le: "now - 7 * DAY \<le> now"
    by (simp add: DAY_def HOUR_def)
  obtain earlier g' where e:
    "fst (generate_data locs now g) = earlier @ fst (hour_rows now now locs g')"
    "\<forall>r \<in> set earlier. timestamp r < now"
    using while_hours_split [OF le week_of_hours, of locs g]
    by (auto simp: generate_data_def Let_def)
  have "fst (hour_rows now now locs g') \<noteq> []"
    using ne hour_rows_length [of now now locs g'] by auto
  from df_latest_split [OF this hour_rows_timestamp e(2)] e(1) show ?thesis
    by auto
qed

lemma WasteDataGenerator_generate_data_latest:
  assumes "fst (WasteDataGenerator_generate_data ts days now g) \<noteq> []"
  shows "\<exists>g'. df_latest (fst (WasteDataGenerator_generate_data ts days now g))
               = Inr (fst (tps_rows now ts g'))"
proof -
  have ne: "ts \<noteq> []"
    using assms while_hours2_no_station by (auto simp: WasteDataGenerator_generate_data_def Let_def)
  have le: "now - days * DAY \<le> now"
  proof (rule ccontr)
    assume "\<not> now - days * DAY \<le> now"
    then have "fst (while_hours2 ts (now - days * DAY) now g) = []"
      by (intro while_hours2_no_hour) simp
    then show False
      using assms by (simp add: WasteDataGenerator_generate_data_def Let_def)
  qed
  obtain earlier g' where e:
    "fst (WasteDataGenerator_generate_data ts days now g) = earlier @ fst (tps_rows now ts g')"
    "\<forall>r \<in> set earlier. timestamp r < now"
    using while_hours2_split [OF le week_of_hours, of ts g]
    by (auto simp: WasteDataGenerator_generate_data_def Let_def)
  have "fst (tps_rows now ts g') \<noteq> []"
    using ne tps_rows_length [of now ts g'] by auto
  from df_latest_split [OF this tps_rows_timestamp e(2)] e(1) show ?thesis
    by auto
qed

lemma generate_data_nonempty: "fst (generate_data (loc # locs) now g) \<noteq> []"
  using generate_data_first [of now loc g locs] by auto

lemma WasteDataGenerator_generate_data_nonempty:
  "0 \<le> days \<Longrightarrow> fst (WasteDataGenerator_generate_data (t # ts) days now g) \<noteq> []"
  using WasteDataGenerator_generate_data_first [of days now t g ts] by auto

lemma multiplier_bertais: "multiplier bertais = 19 / 10"
  by (simp add: bertais_def mk_location_def)

lemma generate_data_last_single:
  "\<exists>g'. last (fst (generate_data [loc] now g)) = fst (sensor_row now now loc g')"
proof -
  have le: "now - 7 * DAY \<le> now"
    by (simp add: DAY_def HOUR_def)
  obtain earlier g' where e:
    "fst (generate_data [loc] now g) = earlier @ fst (hour_rows now now [loc] g')"
    using while_hours_split [OF le week_of_hours, of "[loc]" g]
    by (auto simp: generate_data_def Let_def)
  have "fst (hour_rows now now [loc] g') = [fst (sensor_row now now loc g')]"
    by (simp split: prod.splits)
  with e show ?thesis
    by (intro exI [of _ g']) simp
qed

lemma hour_of_dawn: "hour_of dawn = 5"
  by (simp add: dawn_def eval_time)

lemma bertais_dawn_level:
  "level_kepenuhan (fst (sensor_row (5 * HOUR) dawn bertais demo_rng)) = 0"
  apply (simp only: sensor_row_def Let_def case_prod_beta)
  apply (simp add: eval_numeric eval_time eval_random eval_row demo_rng_def bertais_def dawn_def)
  done

lemma pasar_induk_dawn_level:
  "level_kepenuhan (fst (tps_row (5 * HOUR) pasar_induk demo_rng)) = 10"
  apply (simp only: tps_row_def Let_def case_prod_beta)
  apply (simp add: eval_numeric eval_time eval_random eval_row2 demo_rng_def pasar_induk_def)
  done

subsection \<open>The regression on three days\<close>

lemma daily_totals_three_days: "daily_totals three_days = [(1, 1000), (2, 1100), (3, 1200)]"
  by (simp add: daily_totals_def groupby_sum_def group_values_def three_days_def demo_row_def
      eval_time)

lemma least_squares_line_three:
  "least_squares_line [0, 1, 2] [1000, 1100, 1200] = Inr (100, 1000)"
  by (simp add: least_squares_line_def Let_def)

lemma daily_totals_empty: "daily_totals [] = []"
  by (simp add: daily_totals_def groupby_sum_def)

lemma predict_three:
  assumes "map snd (daily_totals df) = [1000, 1100, 1200]"
  shows "predict_waste_generation df =
           Inr \<lparr>daily = daily_totals df, slope = 100, intercept = 1000, prediction = 1300, delta = 100\<rparr>"
proof -
  have ne: "df \<noteq> []"
  proof
    assume "df = []"
    then have "map snd (daily_totals df) = []"
      by (simp add: daily_totals_empty)
    with assms show False
      by simp
  qed
  have "length (map snd (daily_totals df)) = 3"
    by (simp add: assms)
  then have len: "length (daily_totals df) = 3"
    by simp
  have x: "map rat_of_nat [0..<3] = [0, 1, 2]"
    by (simp add: upt_rec)
  show ?thesis
    using ne by (simp add: predict_waste_generation_def Let_def len x assms least_squares_line_three)
qed

subsection \<open>Sorting a table\<close>

lemma sort_values_descending_order:
  "sort_values tie key False df = rev (sort_values tie key True df)"
  by (simp add: sort_values_def Let_def rev_map)

lemma mset_sort_values [simp]: "mset (sort_values tie key asc df) = mset df"
proof -
  have "mset (map snd (sort_key f (enumerate 0 df))) = mset df" for f :: "nat \<times> 'a \<Rightarrow> 'b \<times> nat"
  proof -
    have "mset (map snd (sort_key f (enumerate 0 df)))
            = image_mset snd (mset (sort_key f (enumerate 0 df)))"
      by (simp only: mset_map)
    also have "\<dots> = image_mset snd (mset (enumerate 0 df))"
      by (simp only: mset_sort)
    also have "\<dots> = mset (map snd (enumerate 0 df))"
      by (simp only: mset_map)
    also have "\<dots> = mset df"
      by (simp only: map_snd_enumerate)
    finally show ?thesis .
  qed
  then show ?thesis
    by (cases asc) (simp_all add: sort_values_def Let_def rev_map)
qed

lemma set_sort_values [simp]: "set (sort_values tie key asc df) = set df"
  by (rule mset_eq_setD) (rule mset_sort_values)

lemma length_sort_values [simp]: "length (sort_values tie key asc df) = length df"
  by (rule mset_eq_length) (rule mset_sort_values)

lemma sorted_map_fst:
  assumes "sorted (map f xs)"
  shows "sorted (map (\<lambda>x. fst (f x)) xs)"
proof -
  have "sorted_wrt (\<lambda>x y. f x \<le> f y) xs"
    using assms by (simp add: sorted_map)
  then have "sorted_wrt (\<lambda>x y. fst (f x) \<le> fst (f y)) xs"
    by (rule sorted_wrt_mono_rel [rotated]) (auto simp: less_eq_prod_def)
  then show ?thesis
    by (simp add: sorted_map)
qed

lemma sort_values_ascending_sorted: "sorted (map key (sort_values tie key True df))"
proof -
  let ?f = "\<lambda>(i, row). (key row, tie (map key df) i)"
  let ?ranked = "sort_key ?f (enumerate 0 df)"
  have "sorted (map ?f ?ranked)"
    by (rule sorted_sort_key)
  then have "sorted (map (\<lambda>x. fst (?f x)) ?ranked)"
    by (rule sorted_map_fst)
  moreover have "map (\<lambda>x. fst (?f x)) ?ranked = map key (map snd ?ranked)"
    by (simp add: case_prod_beta)
  ultimately show ?thesis
    by (simp add: sort_values_def Let_def)
qed

lemma sort_values_descending_sorted:
  "sorted_wrt (\<lambda>a b. key b \<le> key a) (sort_values tie key False df)"
proof -
  have "sorted_wrt (\<lambda>a b. key a \<le> key b) (sort_values tie key True df)"
    using sort_values_ascending_sorted [of key tie df] by (simp add: sorted_map)
  then show ?thesis
    by (simp add: sort_values_descending_order sorted_wrt_rev)
qed


lemma mset_sort_values_descending [simp]: "mset (sort_values_descending keys df) = mset df"
  by (simp add: sort_values_descending_def)

lemma set_sort_values_descending [simp]: "set (sort_values_descending keys df) = set df"
  by (simp add: sort_values_descending_def)

lemma sort_values_descending_sorted_wrt:
  "sorted_wrt (\<lambda>a b. keys b \<le> keys a) (sort_values_descending keys df)"
proof -
  have "sorted (map keys (sort_key keys (rev df)))"
    by (rule sorted_sort_key)
  then have "sorted_wrt (\<lambda>a b. keys a \<le> keys b) (sort_key keys (rev df))"
    by (simp add: sorted_map)
  then show ?thesis
    by (simp add: sort_values_descending_def sorted_wrt_rev)
qed

lemma sort_values_descending_stable:
  "filter (\<lambda>r. keys r = k) (sort_values_descending keys df) = filter (\<lambda>r. keys r = k) df"
proof -
  have "filter (\<lambda>r. keys r = k) (rev (sort_key keys (rev df)))
          = rev (filter (\<lambda>r. keys r = k) (sort_key keys (rev df)))"
    by (simp add: rev_filter)
  also have "\<dots> = rev (filter (\<lambda>r. keys r = k) (rev df))"
    by (simp add: sort_key_stable)
  also have "\<dots> = filter (\<lambda>r. keys r = k) df"
    by (simp add: rev_filter)
  finally show ?thesis
    by (simp add: sort_values_descending_def)
qed

lemma distinct_map_mset_eq:
  assumes "distinct (map f xs)" and "mset ys = mset xs"
  shows "distinct (map f ys)"
proof -
  have "mset (map f ys) = mset (map f xs)"
    using assms(2) by simp
  then show ?thesis
    using assms(1) by (metis mset_eq_imp_distinct_iff)
qed

lemma set_pickup_list: "set (pickup_list tie df) = {r \<in> set df. 75 < level_kepenuhan r}"
  by (auto simp: pickup_list_def)

lemma set_optimize_route: "set (optimize_route df) = {r \<in> set df. 75 < level_kepenuhan r}"
  by (auto simp: optimize_route_def)

lemma optimize_route_sorted:
  "sorted_wrt
     (\<lambda>a b. level_kepenuhan b < level_kepenuhan a \<or>
            (level_kepenuhan b = level_kepenuhan a \<and> berat_kg b \<le> berat_kg a))
     (optimize_route df)"
proof -
  have "sorted_wrt
          (\<lambda>a b. (level_kepenuhan b, berat_kg b) \<le> (level_kepenuhan a, berat_kg a))
          (optimize_route df)"
    unfolding optimize_route_def Let_def by (rule sort_values_descending_sorted_wrt)
  then show ?thesis
    by (rule sorted_wrt_mono_rel [rotated]) (auto simp: less_eq_prod_def)
qed

lemma pickup_list_sorted:
  "sorted_wrt (\<lambda>a b. level_kepenuhan b \<le> level_kepenuhan a) (pickup_list tie df)"
  unfolding pickup_list_def by (rule sort_values_descending_sorted)

lemmas eval_sort = sort_values_def enumerate_eq_zip upt_rec less_eq_prod_def Let_def

lemma pickup_list_demo:
  "pickup_list keep_input_order demo_snapshot =
     [demo_row ''TPS-A'' 90 200, demo_row ''TPS-C'' 90 250, demo_row ''TPS-B'' 76 10]"
  by (simp add: pickup_list_def eval_sort keep_input_order_def demo_snapshot_def demo_row_def)

lemma pickup_list_swapped:
  "pickup_list reverse_input_order swapped_snapshot =
     [demo_row ''TPS-A'' 90 200, demo_row ''TPS-C'' 90 250, demo_row ''TPS-B'' 76 10]"
  by (simp add: pickup_list_def eval_sort reverse_input_order_def swapped_snapshot_def demo_row_def)

lemma optimize_route_demo:
  "optimize_route demo_snapshot =
     [demo_row ''TPS-C'' 90 250, demo_row ''TPS-A'' 90 200, demo_row ''TPS-B'' 76 10]"
  by (simp add: optimize_route_def sort_values_descending_def demo_snapshot_def demo_row_def
      less_eq_prod_def)

text \<open>Whatever order the library leaves among equal keys, one of the two snapshots is routed lighter station first.\<close>

lemma pickup_list_weight_order_fails:
  "map berat_kg (pickup_list tie demo_snapshot) = [200, 250, 10] \<or>
   map berat_kg (pickup_list tie swapped_snapshot) = [200, 250, 10]"
  by (auto simp add: pickup_list_def eval_sort demo_snapshot_def swapped_snapshot_def demo_row_def)

subsection \<open>Labels of the clusters\<close>


















subsection \<open>Renaming the clusters\<close>


















lemma tied_means:
  "groupby_mean [0, 1, 2, 2] (map level_kepenuhan tied_snapshot) = [(0, 50), (1, 50), (2, 185 / 2)]"
  "groupby_mean (map swap_first_two [0, 1, 2, 2]) (map level_kepenuhan tied_snapshot)
     = [(0, 50), (1, 50), (2, 185 / 2)]"
  by (simp_all add: groupby_mean_def group_values_def series_mean_def tied_snapshot_def demo_row_def
      swap_first_two_def)

lemma cluster_ids_leak_whatever_the_sort:
  "priority_status tie (\<lambda>X. [0, 1, 2, 2]) tied_snapshot
     \<noteq> priority_status tie (\<lambda>X. map swap_first_two [0, 1, 2, 2]) tied_snapshot"
proof -
  have l: "length tied_snapshot = 4"
    by (simp add: tied_snapshot_def)
  show ?thesis
    unfolding priority_status_def Let_def tied_means
    by (auto simp: l eval_sort swap_first_two_def)
qed

section \<open>The claims\<close>

subsection \<open>C4: ranges of the generated readings\<close>

text \<open>
  Claim C4. Every reading that either generator produces, for every station table, every
  time of the call and every sequence of random draws, has an integer fill level between
  0 and 100 and a weight that is not negative.
\<close>

theorem readings_in_range:
  "(\<forall>r \<in> set (fst (generate_data locs now g)).
      0 \<le> level_kepenuhan r \<and> level_kepenuhan r \<le> 100 \<and> 0 \<le> berat_kg r) \<and>
   (\<forall>r \<in> set (fst (WasteDataGenerator_generate_data ts days now g)).
      0 \<le> level_kepenuhan r \<and> level_kepenuhan r \<le> 100 \<and> 0 \<le> berat_kg r)"
proof
  show "\<forall>r \<in> set (fst (generate_data locs now g)).
      0 \<le> level_kepenuhan r \<and> level_kepenuhan r \<le> 100 \<and> 0 \<le> berat_kg r"
    unfolding generate_data_def Let_def
    by (rule while_hours_all) (simp add: sensor_row_level sensor_row_berat)
  show "\<forall>r \<in> set (fst (WasteDataGenerator_generate_data ts days now g)).
      0 \<le> level_kepenuhan r \<and> level_kepenuhan r \<le> 100 \<and> 0 \<le> berat_kg r"
    unfolding WasteDataGenerator_generate_data_def Let_def
    by (rule while_hours2_all) (simp add: tps_row_level tps_row_berat)
qed

text \<open>
  The first reading of a week that ends on the evening of 1970-01-08, for the market
  station of \<^verbatim>\<open>app.py\<close> (level 91) and for the main market of \<^verbatim>\<open>app2.py\<close> (level 100, the cap).
\<close>

theorem readings_in_range_witness:
  "(fst (sensor_row (18 * HOUR) evening bertais demo_rng)
      \<in> set (fst (generate_data [bertais] evening demo_rng)) \<and>
    level_kepenuhan (fst (sensor_row (18 * HOUR) evening bertais demo_rng)) = 91 \<and>
    0 \<le> berat_kg (fst (sensor_row (18 * HOUR) evening bertais demo_rng))) \<and>
   (fst (tps_row (18 * HOUR) pasar_induk demo_rng)
      \<in> set (fst (WasteDataGenerator_generate_data [pasar_induk] 7 evening demo_rng)) \<and>
    level_kepenuhan (fst (tps_row (18 * HOUR) pasar_induk demo_rng)) = 100 \<and>
    0 \<le> berat_kg (fst (tps_row (18 * HOUR) pasar_induk demo_rng)))"
proof -
  have s: "evening - 7 * DAY = 18 * HOUR"
    by (simp add: evening_def)
  have m1: "fst (sensor_row (18 * HOUR) evening bertais demo_rng)
              \<in> set (fst (generate_data [bertais] evening demo_rng))"
    using generate_data_first [of evening bertais demo_rng "[]"] s by simp
  have m2: "fst (tps_row (18 * HOUR) pasar_induk demo_rng)
              \<in> set (fst (WasteDataGenerator_generate_data [pasar_induk] 7 evening demo_rng))"
    using WasteDataGenerator_generate_data_first [of 7 evening pasar_induk demo_rng "[]"] s
    by simp
  from readings_in_range [of "[bertais]" evening demo_rng "[pasar_induk]" 7] m1 m2
  show ?thesis
    using bertais_first_level pasar_induk_first_level by blast
qed

subsection \<open>C6: the reset at the hour of the collection\<close>

text \<open>
  Claim C6, as stated, fails for \<^verbatim>\<open>app.py\<close>: when the program runs between five and six
  o'clock, the last hour of the window is an hour of collection, and its readings are
  redrawn from the band of the multiplier. The last reading of the market station is
  such a row: hour 5, level at least 80.
\<close>

theorem reset_range_counterexample:
  "last (fst (generate_data [bertais] dawn demo_rng)) \<in> set (fst (generate_data [bertais] dawn demo_rng)) \<and>
   hour_of (timestamp (last (fst (generate_data [bertais] dawn demo_rng)))) = 5 \<and>
   80 \<le> level_kepenuhan (last (fst (generate_data [bertais] dawn demo_rng)))"
proof -
  obtain g' where l:
    "last (fst (generate_data [bertais] dawn demo_rng)) = fst (sensor_row dawn dawn bertais g')"
    using generate_data_last_single by blast
  have "fst (generate_data [bertais] dawn demo_rng) \<noteq> []"
    by (rule generate_data_nonempty)
  then have "last (fst (generate_data [bertais] dawn demo_rng)) \<in> set (fst (generate_data [bertais] dawn demo_rng))"
    by (rule last_in_set)
  moreover have "80 \<le> level_kepenuhan (fst (sensor_row dawn dawn bertais g'))"
    using sensor_row_latest_band [of bertais dawn g'] by (simp add: multiplier_bertais)
  ultimately show ?thesis
    by (simp add: l hour_of_dawn)
qed

text \<open>
  Claim C6, amended. In \<^verbatim>\<open>app.py\<close> every reading at five o'clock other than those of the
  last hour of the window has a level in \<open>0..9\<close>; in \<^verbatim>\<open>app2.py\<close> every reading at five
  o'clock has a level in \<open>0..10\<close>. The accumulation formula plays no part in either.
\<close>

theorem reset_range:
  "(\<forall>r \<in> set (fst (generate_data locs now g)).
      hour_of (timestamp r) = 5 \<and> timestamp r \<noteq> now \<longrightarrow>
        0 \<le> level_kepenuhan r \<and> level_kepenuhan r < 10) \<and>
   (\<forall>r \<in> set (fst (WasteDataGenerator_generate_data ts days now g)).
      hour_of (timestamp r) = 5 \<longrightarrow> 0 \<le> level_kepenuhan r \<and> level_kepenuhan r \<le> 10)"
proof
  show "\<forall>r \<in> set (fst (generate_data locs now g)).
      hour_of (timestamp r) = 5 \<and> timestamp r \<noteq> now \<longrightarrow>
        0 \<le> level_kepenuhan r \<and> level_kepenuhan r < 10"
    unfolding generate_data_def Let_def
    by (rule while_hours_all) (simp add: sensor_row_reset)
  show "\<forall>r \<in> set (fst (WasteDataGenerator_generate_data ts days now g)).
      hour_of (timestamp r) = 5 \<longrightarrow> 0 \<le> level_kepenuhan r \<and> level_kepenuhan r \<le> 10"
    unfolding WasteDataGenerator_generate_data_def Let_def
    by (rule while_hours2_all) (simp add: tps_row_level_eq sensor_level_reset)
qed

theorem reset_range_witness:
  "(fst (sensor_row (5 * HOUR) dawn bertais demo_rng)
      \<in> set (fst (generate_data [bertais] dawn demo_rng)) \<and>
    hour_of (timestamp (fst (sensor_row (5 * HOUR) dawn bertais demo_rng))) = 5 \<and>
    timestamp (fst (sensor_row (5 * HOUR) dawn bertais demo_rng)) \<noteq> dawn \<and>
    level_kepenuhan (fst (sensor_row (5 * HOUR) dawn bertais demo_rng)) = 0) \<and>
   (fst (tps_row (5 * HOUR) pasar_induk demo_rng)
      \<in> set (fst (WasteDataGenerator_generate_data [pasar_induk] 7 dawn demo_rng)) \<and>
    hour_of (timestamp (fst (tps_row (5 * HOUR) pasar_induk demo_rng))) = 5 \<and>
    level_kepenuhan (fst (tps_row (5 * HOUR) pasar_induk demo_rng)) = 10)"
proof -
  have s: "dawn - 7 * DAY = 5 * HOUR"
    by (simp add: dawn_def)
  have m1: "fst (sensor_row (5 * HOUR) dawn bertais demo_rng)
              \<in> set (fst (generate_data [bertais] dawn demo_rng))"
    using generate_data_first [of dawn bertais demo_rng "[]"] s by simp
  have m2: "fst (tps_row (5 * HOUR) pasar_induk demo_rng)
              \<in> set (fst (WasteDataGenerator_generate_data [pasar_induk] 7 dawn demo_rng))"
    using WasteDataGenerator_generate_data_first [of 7 dawn pasar_induk demo_rng "[]"] s
    by simp
  have h: "hour_of (5 * HOUR) = 5" "5 * HOUR \<noteq> dawn"
    by (simp_all add: eval_time dawn_def)
  from reset_range [of "[bertais]" dawn demo_rng "[pasar_induk]" 7] m1 m2 h
  show ?thesis
    by (simp add: bertais_dawn_level pasar_induk_dawn_level)
qed


subsection \<open>C7: the snapshot\<close>

text \<open>
  Claim C7. For every non-empty history of either generator, the snapshot (the rows at
  the greatest timestamp) exists, has as many rows as there are stations, carries the
  station ids in the order of the station table, one row each, and all its rows have the
  time of the call as their timestamp.
\<close>

theorem snapshot_one_row_per_station:
  "(fst (generate_data locs now g) \<noteq> [] \<longrightarrow>
      (\<exists>snap. df_latest (fst (generate_data locs now g)) = Inr snap \<and>
         length snap = length locs \<and> map id_tps snap = map loc_id locs \<and>
         (\<forall>r \<in> set snap. timestamp r = now))) \<and>
   (fst (WasteDataGenerator_generate_data ts days now g) \<noteq> [] \<longrightarrow>
      (\<exists>snap. df_latest (fst (WasteDataGenerator_generate_data ts days now g)) = Inr snap \<and>
         length snap = length ts \<and> map id_tps snap = map tps_id ts \<and>
         (\<forall>r \<in> set snap. timestamp r = now)))"
proof (intro conjI impI)
  assume "fst (generate_data locs now g) \<noteq> []"
  then obtain g' where
    "df_latest (fst (generate_data locs now g)) = Inr (fst (hour_rows now now locs g'))"
    using generate_data_latest by blast
  then show "\<exists>snap. df_latest (fst (generate_data locs now g)) = Inr snap \<and>
         length snap = length locs \<and> map id_tps snap = map loc_id locs \<and>
         (\<forall>r \<in> set snap. timestamp r = now)"
    using hour_rows_length [of now now locs g'] hour_rows_ids [of now now locs g']
      hour_rows_timestamp [of now now locs g']
    by (intro exI [of _ "fst (hour_rows now now locs g')"]) simp
next
  assume "fst (WasteDataGenerator_generate_data ts days now g) \<noteq> []"
  then obtain g' where
    "df_latest (fst (WasteDataGenerator_generate_data ts days now g)) = Inr (fst (tps_rows now ts g'))"
    using WasteDataGenerator_generate_data_latest by blast
  then show "\<exists>snap. df_latest (fst (WasteDataGenerator_generate_data ts days now g)) = Inr snap \<and>
         length snap = length ts \<and> map id_tps snap = map tps_id ts \<and>
         (\<forall>r \<in> set snap. timestamp r = now)"
    using tps_rows_length [of now ts g'] tps_rows_ids [of now ts g'] tps_rows_timestamp [of now ts g']
    by (intro exI [of _ "fst (tps_rows now ts g')"]) simp
qed

theorem snapshot_one_row_per_station_witness:
  "fst (generate_data [bertais] evening demo_rng) \<noteq> [] \<and>
   (\<exists>snap. df_latest (fst (generate_data [bertais] evening demo_rng)) = Inr snap \<and>
      length snap = 1 \<and> map id_tps snap = [''TPS-10''] \<and>
      (\<forall>r \<in> set snap. timestamp r = evening)) \<and>
   fst (WasteDataGenerator_generate_data [pasar_induk] 7 evening demo_rng) \<noteq> [] \<and>
   (\<exists>snap. df_latest (fst (WasteDataGenerator_generate_data [pasar_induk] 7 evening demo_rng)) = Inr snap \<and>
      length snap = 1 \<and> map id_tps snap = [''TPS-12''] \<and>
      (\<forall>r \<in> set snap. timestamp r = evening))"
proof -
  have a: "fst (generate_data [bertais] evening demo_rng) \<noteq> []"
    by (rule generate_data_nonempty)
  have b: "fst (WasteDataGenerator_generate_data [pasar_induk] 7 evening demo_rng) \<noteq> []"
    by (rule WasteDataGenerator_generate_data_nonempty) simp
  have c: "map loc_id [bertais] = [''TPS-10'']" "map tps_id [pasar_induk] = [''TPS-12'']"
    by (simp_all add: bertais_def pasar_induk_def mk_location_def mk_tps_def)
  from snapshot_one_row_per_station [of "[bertais]" evening demo_rng "[pasar_induk]" 7] a b c
  show ?thesis
    by simp
qed

subsection \<open>C5: the forecast on three days\<close>

text \<open>
  Claim C5, as stated, fails on the intercept: both programs number the days from 0
  (\<^verbatim>\<open>range(len(daily_df))\<close>), so the line through the totals 1000, 1100, 1200 has the
  intercept 1000, not 900.
\<close>

theorem forecast_intercept_counterexample:
  "map snd (daily_totals three_days) = [1000, 1100, 1200] \<and>
   predict_waste_generation three_days =
     Inr \<lparr>daily = [(1, 1000), (2, 1100), (3, 1200)], slope = 100, intercept = 1000,
          prediction = 1300, delta = 100\<rparr>"
proof -
  have "map snd (daily_totals three_days) = [1000, 1100, 1200]"
    by (simp add: daily_totals_three_days)
  from predict_three [OF this] show ?thesis
    by (simp add: daily_totals_three_days)
qed

text \<open>
  Claim C5, amended. For a history whose totals per day over three days are 1000, 1100
  and 1200, the least-squares line over the day indices 0, 1, 2 has slope 100 and
  intercept 1000, the prediction for the next day (index 3) is 1300, and the difference
  shown against the total of the last day is +100.
\<close>

theorem forecast_three_days:
  "map snd (daily_totals df) = [1000, 1100, 1200] \<longrightarrow>
     (\<exists>f. predict_waste_generation df = Inr f \<and> slope f = 100 \<and> intercept f = 1000 \<and>
          prediction f = 1300 \<and> delta f = 100 \<and> delta f = prediction f - 1200)"
proof
  assume "map snd (daily_totals df) = [1000, 1100, 1200]"
  from predict_three [OF this] show "\<exists>f. predict_waste_generation df = Inr f \<and> slope f = 100 \<and> intercept f = 1000 \<and>
          prediction f = 1300 \<and> delta f = 100 \<and> delta f = prediction f - 1200"
    by simp
qed

theorem forecast_three_days_witness:
  "map snd (daily_totals three_days) = [1000, 1100, 1200] \<and>
   (\<exists>f. predict_waste_generation three_days = Inr f \<and> slope f = 100 \<and> intercept f = 1000 \<and>
        prediction f = 1300 \<and> delta f = 100 \<and> delta f = prediction f - 1200)"
proof -
  have "map snd (daily_totals three_days) = [1000, 1100, 1200]"
    by (simp add: daily_totals_three_days)
  with forecast_three_days [of three_days] show ?thesis
    by blast
qed

subsection \<open>C10: the band of the last hour in \<^verbatim>\<open>app.py\<close>\<close>

text \<open>
  Claim C10. In \<^verbatim>\<open>app.py\<close> the level of every reading of the snapshot lies in the band of
  its station's multiplier: 80 to 99 above 1.5, 50 to 78 above 1.1 and up to 1.5, 10 to
  48 otherwise, whatever the hour of the call (the hour of the reset included).
  Hence a station with a multiplier above 1.5 has a level above 75 and is a row of the
  pickup list (whatever order the sort leaves among equal levels), and a station with a multiplier of at most 1.1 has a level below 50.
\<close>

theorem latest_level_from_multiplier_band:
  "fst (generate_data locs now g) \<noteq> [] \<longrightarrow>
     (\<exists>snap. df_latest (fst (generate_data locs now g)) = Inr snap \<and>
        list_all2
          (\<lambda>loc r.
             (15 / 10 < multiplier loc \<longrightarrow>
                80 \<le> level_kepenuhan r \<and> level_kepenuhan r < 100 \<and>
                75 < level_kepenuhan r \<and> r \<in> set (pickup_list tie snap)) \<and>
             (11 / 10 < multiplier loc \<and> multiplier loc \<le> 15 / 10 \<longrightarrow>
                50 \<le> level_kepenuhan r \<and> level_kepenuhan r < 79) \<and>
             (multiplier loc \<le> 11 / 10 \<longrightarrow>
                10 \<le> level_kepenuhan r \<and> level_kepenuhan r < 49 \<and> level_kepenuhan r < 50))
          locs snap)"
proof
  assume "fst (generate_data locs now g) \<noteq> []"
  then obtain g' where s:
    "df_latest (fst (generate_data locs now g)) = Inr (fst (hour_rows now now locs g'))"
    using generate_data_latest by blast
  let ?snap = "fst (hour_rows now now locs g')"
  have "list_all2 (\<lambda>loc r. \<exists>g'. r = fst (sensor_row now now loc g')) locs ?snap"
    by (rule hour_rows_rows)
  then have "list_all2
          (\<lambda>loc r.
             (15 / 10 < multiplier loc \<longrightarrow>
                80 \<le> level_kepenuhan r \<and> level_kepenuhan r < 100 \<and>
                75 < level_kepenuhan r \<and> r \<in> set (pickup_list tie ?snap)) \<and>
             (11 / 10 < multiplier loc \<and> multiplier loc \<le> 15 / 10 \<longrightarrow>
                50 \<le> level_kepenuhan r \<and> level_kepenuhan r < 79) \<and>
             (multiplier loc \<le> 11 / 10 \<longrightarrow>
                10 \<le> level_kepenuhan r \<and> level_kepenuhan r < 49 \<and> level_kepenuhan r < 50))
          locs ?snap"
  proof (rule list.rel_mono_strong)
    fix loc r
    assume "loc \<in> set locs" and mem: "r \<in> set ?snap"
      and "\<exists>g'. r = fst (sensor_row now now loc g')"
    then obtain g'' where r: "r = fst (sensor_row now now loc g'')"
      by blast
    from sensor_row_latest_band [of loc now g''] mem
    show "(15 / 10 < multiplier loc \<longrightarrow>
                80 \<le> level_kepenuhan r \<and> level_kepenuhan r < 100 \<and>
                75 < level_kepenuhan r \<and> r \<in> set (pickup_list tie ?snap)) \<and>
             (11 / 10 < multiplier loc \<and> multiplier loc \<le> 15 / 10 \<longrightarrow>
                50 \<le> level_kepenuhan r \<and> level_kepenuhan r < 79) \<and>
             (multiplier loc \<le> 11 / 10 \<longrightarrow>
                10 \<le> level_kepenuhan r \<and> level_kepenuhan r < 49 \<and> level_kepenuhan r < 50)"
      unfolding r set_pickup_list by auto
  qed
  with s show "\<exists>snap. df_latest (fst (generate_data locs now g)) = Inr snap \<and>
        list_all2
          (\<lambda>loc r.
             (15 / 10 < multiplier loc \<longrightarrow>
                80 \<le> level_kepenuhan r \<and> level_kepenuhan r < 100 \<and>
                75 < level_kepenuhan r \<and> r \<in> set (pickup_list tie snap)) \<and>
             (11 / 10 < multiplier loc \<and> multiplier loc \<le> 15 / 10 \<longrightarrow>
                50 \<le> level_kepenuhan r \<and> level_kepenuhan r < 79) \<and>
             (multiplier loc \<le> 11 / 10 \<longrightarrow>
                10 \<le> level_kepenuhan r \<and> level_kepenuhan r < 49 \<and> level_kepenuhan r < 50))
          locs snap"
    by blast
qed

theorem latest_level_from_multiplier_band_witness:
  "fst (generate_data [bertais] dawn demo_rng) \<noteq> [] \<and>
   (\<exists>r. df_latest (fst (generate_data [bertais] dawn demo_rng)) = Inr [r] \<and>
      80 \<le> level_kepenuhan r \<and> level_kepenuhan r < 100 \<and> r \<in> set (pickup_list keep_input_order [r]))"
proof -
  have a: "fst (generate_data [bertais] dawn demo_rng) \<noteq> []"
    by (rule generate_data_nonempty)
  from latest_level_from_multiplier_band [of "[bertais]" dawn demo_rng keep_input_order] a
  show ?thesis
    by (auto simp: list_all2_Cons1 multiplier_bertais)
qed



subsection \<open>C2: the order of the route\<close>

text \<open>
  Claim C2, as stated, fails for \<^verbatim>\<open>app.py\<close>, which sorts its pickup list by the level
  alone. Of two stations at level 90, one weighing 200 kg and one weighing 250 kg, the
  lighter one is routed first: in the snapshot that lists it first when the sort leaves
  equal levels in input order, and in the snapshot that lists it second when the sort
  reverses them (\<open>pickup_list_weight_order_fails\<close> covers every other order the sort
  may leave).
\<close>

theorem route_tie_break_counterexample:
  "map level_kepenuhan (pickup_list keep_input_order demo_snapshot) = [90, 90, 76] \<and>
   map berat_kg (pickup_list keep_input_order demo_snapshot) = [200, 250, 10] \<and>
   map level_kepenuhan (pickup_list reverse_input_order swapped_snapshot) = [90, 90, 76] \<and>
   map berat_kg (pickup_list reverse_input_order swapped_snapshot) = [200, 250, 10]"
  by (simp add: pickup_list_demo pickup_list_swapped) (simp add: demo_row_def)

text \<open>
  Claim C2, amended. The plan of \<^verbatim>\<open>app2.py\<close> is sorted by level, descending, and among
  equal levels by weight, descending. The pickup list of \<^verbatim>\<open>app.py\<close> is sorted by level,
  descending; the weight plays no part in it. Both hold exactly the stations above 75,
  with distinct station ids when the snapshot's ids are distinct. Whenever some station
  is above 75 the route is not empty and its list of coordinates is the coordinates of
  the stations in route order followed by the disposal site; a list of coordinates is
  never empty and always ends at the disposal site.
\<close>

theorem route_sorted_unique_ends_at_disposal:
  "sorted_wrt
     (\<lambda>a b. level_kepenuhan b < level_kepenuhan a \<or>
            (level_kepenuhan b = level_kepenuhan a \<and> berat_kg b \<le> berat_kg a))
     (optimize_route df) \<and>
   sorted_wrt (\<lambda>a b. level_kepenuhan b \<le> level_kepenuhan a) (pickup_list tie df) \<and>
   set (optimize_route df) = {r \<in> set df. 75 < level_kepenuhan r} \<and>
   set (pickup_list tie df) = {r \<in> set df. 75 < level_kepenuhan r} \<and>
   (distinct (map id_tps df) \<longrightarrow>
      distinct (map id_tps (optimize_route df)) \<and> distinct (map id_tps (pickup_list tie df))) \<and>
   ((\<exists>r \<in> set df. 75 < level_kepenuhan r) \<longrightarrow>
      optimize_route df \<noteq> [] \<and>
      routing_coords df =
        Some (map (\<lambda>row. (longitude row, latitude row)) (optimize_route df) @ [tpa_coords]) \<and>
      pickup_list tie df \<noteq> [] \<and>
      route_coords tie df =
        Some (map (\<lambda>row. (longitude row, latitude row)) (pickup_list tie df) @ [TPA_LOCATION])) \<and>
   (\<forall>cs. routing_coords df = Some cs \<longrightarrow> cs \<noteq> [] \<and> last cs = tpa_coords) \<and>
   (\<forall>cs. route_coords tie df = Some cs \<longrightarrow> cs \<noteq> [] \<and> last cs = TPA_LOCATION)"
proof (intro conjI allI impI)
  show "sorted_wrt
     (\<lambda>a b. level_kepenuhan b < level_kepenuhan a \<or>
            (level_kepenuhan b = level_kepenuhan a \<and> berat_kg b \<le> berat_kg a))
     (optimize_route df)"
    by (rule optimize_route_sorted)
  show "sorted_wrt (\<lambda>a b. level_kepenuhan b \<le> level_kepenuhan a) (pickup_list tie df)"
    by (rule pickup_list_sorted)
  show s2: "set (optimize_route df) = {r \<in> set df. 75 < level_kepenuhan r}"
    by (rule set_optimize_route)
  show s1: "set (pickup_list tie df) = {r \<in> set df. 75 < level_kepenuhan r}"
    by (rule set_pickup_list)
  show "distinct (map id_tps (optimize_route df))" if "distinct (map id_tps df)"
  proof (rule distinct_map_mset_eq)
    show "distinct (map id_tps (filter (\<lambda>r. 75 < level_kepenuhan r) df))"
      using that by (rule distinct_map_filter)
    show "mset (optimize_route df) = mset (filter (\<lambda>r. 75 < level_kepenuhan r) df)"
      by (simp add: optimize_route_def)
  qed
  show "distinct (map id_tps (pickup_list tie df))" if "distinct (map id_tps df)"
  proof (rule distinct_map_mset_eq)
    show "distinct (map id_tps (filter (\<lambda>r. 75 < level_kepenuhan r) df))"
      using that by (rule distinct_map_filter)
    show "mset (pickup_list tie df) = mset (filter (\<lambda>r. 75 < level_kepenuhan r) df)"
      by (simp add: pickup_list_def)
  qed
  show n2: "optimize_route df \<noteq> []" if "\<exists>r \<in> set df. 75 < level_kepenuhan r"
    using that s2 by (metis (mono_tags, lifting) empty_iff list.set(1) mem_Collect_eq)
  show n1: "pickup_list tie df \<noteq> []" if "\<exists>r \<in> set df. 75 < level_kepenuhan r"
    using that s1 by (metis (mono_tags, lifting) empty_iff list.set(1) mem_Collect_eq)
  show "routing_coords df =
        Some (map (\<lambda>row. (longitude row, latitude row)) (optimize_route df) @ [tpa_coords])"
    if "\<exists>r \<in> set df. 75 < level_kepenuhan r"
    using n2 [OF that] by (simp add: routing_coords_def Let_def)
  show "route_coords tie df =
        Some (map (\<lambda>row. (longitude row, latitude row)) (pickup_list tie df) @ [TPA_LOCATION])"
    if "\<exists>r \<in> set df. 75 < level_kepenuhan r"
    using n1 [OF that] by (simp add: route_coords_def Let_def)
  show "cs \<noteq> []" if "routing_coords df = Some cs" for cs
    using that by (auto simp: routing_coords_def Let_def split: if_splits)
  show "last cs = tpa_coords" if "routing_coords df = Some cs" for cs
    using that by (auto simp: routing_coords_def Let_def split: if_splits)
  show "cs \<noteq> []" if "route_coords tie df = Some cs" for cs
    using that by (auto simp: route_coords_def Let_def split: if_splits)
  show "last cs = TPA_LOCATION" if "route_coords tie df = Some cs" for cs
    using that by (auto simp: route_coords_def Let_def split: if_splits)
qed

theorem route_sorted_unique_ends_at_disposal_witness:
  "distinct (map id_tps demo_snapshot) \<and>
   map level_kepenuhan demo_snapshot = [90, 76, 90, 40] \<and>
   map id_tps (optimize_route demo_snapshot) = [''TPS-C'', ''TPS-A'', ''TPS-B''] \<and>
   map id_tps (pickup_list keep_input_order demo_snapshot) = [''TPS-A'', ''TPS-C'', ''TPS-B''] \<and>
   distinct (map id_tps (optimize_route demo_snapshot)) \<and>
   distinct (map id_tps (pickup_list keep_input_order demo_snapshot)) \<and>
   routing_coords demo_snapshot = Some [(2, 1), (2, 1), (2, 1), tpa_coords] \<and>
   last [(2, 1), (2, 1), (2, 1), tpa_coords] = tpa_coords \<and>
   route_coords keep_input_order demo_snapshot = Some [(2, 1), (2, 1), (2, 1), TPA_LOCATION] \<and>
   last [(2, 1), (2, 1), (2, 1), TPA_LOCATION] = TPA_LOCATION"
proof -
  have d: "distinct (map id_tps demo_snapshot)"
    by (simp add: demo_snapshot_def demo_row_def)
  have l: "map level_kepenuhan demo_snapshot = [90, 76, 90, 40]"
    by (simp add: demo_snapshot_def demo_row_def)
  have u: "\<exists>r \<in> set demo_snapshot. 75 < level_kepenuhan r"
    by (simp add: demo_snapshot_def demo_row_def)
  have c2: "map (\<lambda>row. (longitude row, latitude row)) (optimize_route demo_snapshot)
              = [(2, 1), (2, 1), (2, 1)]"
    by (simp add: optimize_route_demo) (simp add: demo_row_def)
  have c1: "map (\<lambda>row. (longitude row, latitude row)) (pickup_list keep_input_order demo_snapshot)
              = [(2, 1), (2, 1), (2, 1)]"
    by (simp add: pickup_list_demo) (simp add: demo_row_def)
  have i2: "map id_tps (optimize_route demo_snapshot) = [''TPS-C'', ''TPS-A'', ''TPS-B'']"
    by (simp add: optimize_route_demo) (simp add: demo_row_def)
  have i1: "map id_tps (pickup_list keep_input_order demo_snapshot) = [''TPS-A'', ''TPS-C'', ''TPS-B'']"
    by (simp add: pickup_list_demo) (simp add: demo_row_def)
  from route_sorted_unique_ends_at_disposal [of demo_snapshot keep_input_order] d u
  have "distinct (map id_tps (optimize_route demo_snapshot))"
    and "distinct (map id_tps (pickup_list keep_input_order demo_snapshot))"
    and "routing_coords demo_snapshot =
        Some (map (\<lambda>row. (longitude row, latitude row)) (optimize_route demo_snapshot) @ [tpa_coords])"
    and "route_coords keep_input_order demo_snapshot =
        Some (map (\<lambda>row. (longitude row, latitude row)) (pickup_list keep_input_order demo_snapshot)
              @ [TPA_LOCATION])"
    by blast+
  then show ?thesis
    using d l i1 i2 by (simp add: c1 c2)
qed

subsection \<open>C9: nothing to pick up\<close>

text \<open>
  Claim C9. When no station of the snapshot has a level above 75, the route of either
  program is the empty list, no list of coordinates is built and so no disposal stop is
  appended; the result is an ordinary value (the standby message), not an error.
\<close>

theorem no_pickup_needed:
  "(\<forall>r \<in> set df. level_kepenuhan r \<le> 75) \<longrightarrow>
     pickup_list tie df = [] \<and> route_coords tie df = None \<and>
     optimize_route df = [] \<and> routing_coords df = None"
proof
  assume a: "\<forall>r \<in> set df. level_kepenuhan r \<le> 75"
  then have "filter (\<lambda>r. 75 < level_kepenuhan r) df = []"
    by (auto simp: filter_empty_conv)
  then have "pickup_list tie df = []" "optimize_route df = []"
    by (simp_all add: pickup_list_def optimize_route_def sort_values_def sort_values_descending_def)
  then show "pickup_list tie df = [] \<and> route_coords tie df = None \<and>
     optimize_route df = [] \<and> routing_coords df = None"
    by (simp add: route_coords_def routing_coords_def)
qed

theorem no_pickup_needed_witness:
  "map level_kepenuhan calm_snapshot = [40, 75] \<and>
   pickup_list keep_input_order calm_snapshot = [] \<and>
   route_coords keep_input_order calm_snapshot = None \<and>
   optimize_route calm_snapshot = [] \<and> routing_coords calm_snapshot = None"
proof -
  have l: "map level_kepenuhan calm_snapshot = [40, 75]"
    by (simp add: calm_snapshot_def demo_row_def)
  then have "\<forall>r \<in> set calm_snapshot. level_kepenuhan r \<le> 75"
    by (simp add: calm_snapshot_def demo_row_def)
  with no_pickup_needed [of calm_snapshot keep_input_order] l show ?thesis
    by simp
qed

subsection \<open>C8: clustering and its fallback\<close>




subsection \<open>C3: labels and cluster ids\<close>




end
